theory Spec2Isabelle
  imports Main "HOL-Library.Char_ord" "HOL-Library.List_Lexorder"
begin

section \<open>Data model\<close>

text \<open>
  Go strings are byte strings and \<^verbatim>\<open>sort.Strings\<close> orders them bytewise,
  a proper prefix first. That is the lexicographic order on \<^typ>\<open>string\<close> given by
  the two library theories imported above, so \<^const>\<open>sort\<close> on a \<^typ>\<open>string list\<close>
  stands for \<^verbatim>\<open>sort.Strings\<close>.

  A Go \<^verbatim>\<open>map[K]V\<close> is an association list. The order of the list is the order in
  which \<^verbatim>\<open>range\<close> happens to yield the keys (Go leaves it unspecified); a lookup
  takes the first binding of a key.
\<close>

type_synonym ('k, 'v) gomap = "('k \<times> 'v) list"

definition keys_of :: "('k, 'v) gomap \<Rightarrow> 'k list" where
  "keys_of m = remdups (map fst m)"

definition len_map :: "('k, 'v) gomap \<Rightarrow> nat" where
  "len_map m = length (keys_of m)"

text \<open>\<^verbatim>\<open>m[k]\<close> on a map of strings: the zero value \<^verbatim>\<open>""\<close> for a missing key.\<close>

definition index_str :: "('k, string) gomap \<Rightarrow> 'k \<Rightarrow> string" where
  "index_str m k = (case map_of m k of None \<Rightarrow> [] | Some v \<Rightarrow> v)"

text \<open>\<^verbatim>\<open>m[k]\<close> on a map of pointers: \<^verbatim>\<open>nil\<close> (here \<open>None\<close>) for a missing key.\<close>

definition index_ptr :: "('k, 'v option) gomap \<Rightarrow> 'k \<Rightarrow> 'v option" where
  "index_ptr m k = (case map_of m k of None \<Rightarrow> None | Some p \<Rightarrow> p)"

text \<open>\<^verbatim>\<open>dpkgutil.Dpkg\<close>, \<^verbatim>\<open>apkutil.APK\<close> and \<^verbatim>\<open>filespec.FileSpec\<close>, with the
  fields the drivers and the downloader read. The fields of \<^verbatim>\<open>APK\<close> carry a prefix,
  since a record field is a constant of its own.\<close>

record dpkgutil_Dpkg =
  Package :: string
  Version :: string
  Architecture :: string

record apkutil_APK =
  APKPackage :: string
  APKVersion :: string

record FileSpec =
  Name :: string
  Basename :: string
  SHA256 :: string
  Dpkg :: "dpkgutil_Dpkg option"
  APK :: "apkutil_APK option"

text \<open>A \<^verbatim>\<open>*url.URL\<close> is kept opaque: the text the template resolved to.\<close>

type_synonym url = string

text \<open>Every error value and panic of the modelled functions. \<open>External\<close> is an error
  that comes from outside these files (the cache, the network, a child process).\<close>

datatype error =
    External string
  | ErrDistroNil
  | ErrCacheNil
  | ErrNoProvider
  | ErrURL FileSpec string
  | ErrDownload string url error
  | ErrNoPackageInstalled
  | ErrCacheRequired
  | ErrNoDpkgInfo string
  | ErrNoApkInfo string
  | ErrDetectInstalled error
  | ErrStart "string list" error
  | ErrParseOutput "string list" error
  | ErrExecute "string list" error
  | ErrOpen string error
  | ErrParseSums string error
  | PanicNilPointer

record distro_Info =
  InfoName :: string
  DefaultProviders :: "string list"
  Experimental :: bool
  CacheIsNeededForGeneratingHash :: bool

text \<open>The part of the \<^verbatim>\<open>distro.Distro\<close> interface that \<^verbatim>\<open>Download\<close> calls, and
  the two methods of \<^verbatim>\<open>*cache.Cache\<close> it calls. Both act on the outside world
  (installed packages, the cache directory, the network), a state of type \<open>'w\<close> that
  every call takes and returns. A Go call returning \<^verbatim>\<open>(bool, error)\<close> returns the
  pair here too.\<close>

record 'w Distro =
  Info :: distro_Info
  IsPackageVersionInstalled :: "FileSpec \<Rightarrow> 'w \<Rightarrow> (bool \<times> error option) \<times> 'w"

record 'w Cache =
  Cached :: "string \<Rightarrow> 'w \<Rightarrow> (bool \<times> error option) \<times> 'w"
  Ensure :: "url \<Rightarrow> string \<Rightarrow> 'w \<Rightarrow> error option \<times> 'w"

record Result =
  PackagesToBeInstalled :: "FileSpec list"

record Opts =
  Providers :: "string list"
  SkipInstalled :: bool

text \<open>What \<^verbatim>\<open>Download\<close> does to the world, in the order it does it: the calls to the
  driver and the cache, the status lines it prints and the warnings it logs.\<close>

datatype status = AlreadyInstalled | IsCached | DownloadingFrom url

datatype warning =
    FailedCheckInstalled error string
  | FailedCheckCached error string string
  | FailedDownloadTryNext error string url

datatype event =
    CallIsPackageVersionInstalled FileSpec
  | CallCached string
  | CallEnsure url string
  | Println nat nat string status
  | Warnf warning

section \<open>The downloader (pkg/downloader/downloader.go)\<close>

text \<open>How a Go \<^verbatim>\<open>for\<close> loop over a slice ends: the slice is exhausted, the body
  executes \<^verbatim>\<open>break\<close>, or the body returns from the function with an error.\<close>

datatype loop_exit = Exhausted | Break | Return error

text \<open>The loop over the providers, lines 82 to 97. \<open>URL\<close> is the method
  \<^verbatim>\<open>FileSpec.URL\<close>, \<open>n\<close> is \<^verbatim>\<open>len(providers)\<close> and \<open>j\<close> the index of the
  provider at the head of the list; \<open>i\<close> and \<open>l\<close> only appear in the status line.\<close>

fun providers_loop ::
  "(FileSpec \<Rightarrow> string \<Rightarrow> error + url) \<Rightarrow> 'w Cache \<Rightarrow> nat \<Rightarrow> nat \<Rightarrow> FileSpec \<Rightarrow>
   nat \<Rightarrow> nat \<Rightarrow> string list \<Rightarrow> 'w \<Rightarrow> loop_exit \<times> 'w \<times> event list" where
  "providers_loop URL c i l sp n j [] w = (Exhausted, w, [])"
| "providers_loop URL c i l sp n j (provider # rest) w =
     (case URL sp provider of
        Inl _ \<Rightarrow> (Return (ErrURL sp provider), w, [])
      | Inr u \<Rightarrow>
          (case Ensure c u (SHA256 sp) w of
             (Some err, w') \<Rightarrow>
               if j \<noteq> n - 1 then
                 (case providers_loop URL c i l sp n (j + 1) rest w' of
                    (r, w'', evs) \<Rightarrow>
                      (r, w'',
                       [Println (i + 1) l (Basename sp) (DownloadingFrom u),
                        CallEnsure u (SHA256 sp),
                        Warnf (FailedDownloadTryNext err (Basename sp) u)] @ evs))
               else
                 (Return (ErrDownload (Basename sp) u err), w',
                  [Println (i + 1) l (Basename sp) (DownloadingFrom u),
                   CallEnsure u (SHA256 sp)])
           | (None, w') \<Rightarrow>
               (Break, w',
                [Println (i + 1) l (Basename sp) (DownloadingFrom u),
                 CallEnsure u (SHA256 sp)])))"

text \<open>The skip-if-installed test, lines 61 to 71: whether the iteration ends with
  \<^verbatim>\<open>continue\<close> there.\<close>

definition check_installed ::
  "'w Distro \<Rightarrow> Opts \<Rightarrow> FileSpec \<Rightarrow> 'w \<Rightarrow> bool \<times> 'w \<times> event list" where
  "check_installed d opts sp w =
     (if SkipInstalled opts then
        (case IsPackageVersionInstalled d sp w of
           ((packageVersionInstalled, Some err), w') \<Rightarrow>
             (False, w',
              [CallIsPackageVersionInstalled sp, Warnf (FailedCheckInstalled err (Basename sp))])
         | ((packageVersionInstalled, None), w') \<Rightarrow>
             (packageVersionInstalled, w', [CallIsPackageVersionInstalled sp]))
      else (False, w, []))"

text \<open>The cache test, lines 72 to 76.\<close>

definition check_cached :: "'w Cache \<Rightarrow> FileSpec \<Rightarrow> 'w \<Rightarrow> bool \<times> 'w \<times> event list" where
  "check_cached c sp w =
     (case Cached c (SHA256 sp) w of
        ((cached, Some err), w') \<Rightarrow>
          (False, w',
           [CallCached (SHA256 sp), Warnf (FailedCheckCached err (SHA256 sp) (Basename sp))])
      | ((cached, None), w') \<Rightarrow> (cached, w', [CallCached (SHA256 sp)]))"

text \<open>One iteration of the loop over the file names, lines 57 to 98, for the pointer
  \<open>sp\<close> found in the map. \<open>Inr res'\<close> is the result the next iteration goes on with;
  \<open>Inl e\<close> is \<^verbatim>\<open>return nil, e\<close>. A nil pointer is dereferenced before anything else
  happens (\<^verbatim>\<open>*sp\<close> on line 62 or \<^verbatim>\<open>sp.SHA256\<close> on line 72).\<close>

definition download_one ::
  "(FileSpec \<Rightarrow> string \<Rightarrow> error + url) \<Rightarrow> 'w Distro \<Rightarrow> 'w Cache \<Rightarrow> Opts \<Rightarrow> string list \<Rightarrow>
   nat \<Rightarrow> nat \<Rightarrow> FileSpec option \<Rightarrow> Result \<Rightarrow> 'w \<Rightarrow> (error + Result) \<times> 'w \<times> event list" where
  "download_one URL d c opts providers l i sp_ptr res w =
     (case sp_ptr of
        None \<Rightarrow> (Inl PanicNilPointer, w, [])
      | Some sp \<Rightarrow>
          (case check_installed d opts sp w of
             (True, w1, evs1) \<Rightarrow>
               (Inr res, w1, evs1 @ [Println (i + 1) l (Basename sp) AlreadyInstalled])
           | (False, w1, evs1) \<Rightarrow>
               (case check_cached c sp w1 of
                  (True, w2, evs2) \<Rightarrow>
                    (Inr (res\<lparr>PackagesToBeInstalled := PackagesToBeInstalled res @ [sp]\<rparr>), w2,
                     evs1 @ evs2 @ [Println (i + 1) l (Basename sp) IsCached])
                | (False, w2, evs2) \<Rightarrow>
                    (case providers_loop URL c i l sp (length providers) 0 providers w2 of
                       (Return e, w3, evs3) \<Rightarrow> (Inl e, w3, evs1 @ evs2 @ evs3)
                     | (_, w3, evs3) \<Rightarrow>
                         (Inr (res\<lparr>PackagesToBeInstalled := PackagesToBeInstalled res @ [sp]\<rparr>),
                          w3, evs1 @ evs2 @ evs3)))))"

text \<open>The loop over the sorted file names, lines 56 to 99; \<open>i\<close> is the index of the
  name at the head of the list.\<close>

fun specs_loop ::
  "(FileSpec \<Rightarrow> string \<Rightarrow> error + url) \<Rightarrow> 'w Distro \<Rightarrow> 'w Cache \<Rightarrow>
   (string, FileSpec option) gomap \<Rightarrow> Opts \<Rightarrow> string list \<Rightarrow>
   nat \<Rightarrow> nat \<Rightarrow> string list \<Rightarrow> Result \<Rightarrow> 'w \<Rightarrow> (error + Result) \<times> 'w \<times> event list" where
  "specs_loop URL d c fileSpecs opts providers l i [] res w = (Inr res, w, [])"
| "specs_loop URL d c fileSpecs opts providers l i (fname # rest) res w =
     (case download_one URL d c opts providers l i (index_ptr fileSpecs fname) res w of
        (Inl e, w', evs) \<Rightarrow> (Inl e, w', evs)
      | (Inr res', w', evs) \<Rightarrow>
          (case specs_loop URL d c fileSpecs opts providers l (i + 1) rest res' w' of
             (r, w'', evs') \<Rightarrow> (r, w'', evs @ evs')))"

text \<open>Lines 41 to 45: the keys of the map, in the order \<^verbatim>\<open>range\<close> yields them, then
  sorted.\<close>

definition sorted_fnames :: "(string, 'v) gomap \<Rightarrow> string list" where
  "sorted_fnames fileSpecs = sort (keys_of fileSpecs)"

text \<open>Lines 33 to 36: the caller's providers, or the driver's defaults when the caller
  gave none.\<close>

definition effective_providers :: "Opts \<Rightarrow> 'w Distro \<Rightarrow> string list" where
  "effective_providers opts d =
     (if length (Providers opts) = 0 then DefaultProviders (Info d) else Providers opts)"

text \<open>\<^verbatim>\<open>Download\<close>. The driver and the cache are pointers that may be nil. The result
  is what Go returns (\<open>Inl e\<close> for \<^verbatim>\<open>nil, e\<close>), the world after the call, and the
  events of the call in order.\<close>

definition Download ::
  "(FileSpec \<Rightarrow> string \<Rightarrow> error + url) \<Rightarrow> 'w Distro option \<Rightarrow> 'w Cache option \<Rightarrow>
   (string, FileSpec option) gomap \<Rightarrow> Opts \<Rightarrow> 'w \<Rightarrow> (error + Result) \<times> 'w \<times> event list" where
  "Download URL d cache fileSpecs opts w =
     (case d of
        None \<Rightarrow> (Inl ErrDistroNil, w, [])
      | Some d' \<Rightarrow>
          (case cache of
             None \<Rightarrow> (Inl ErrCacheNil, w, [])
           | Some c \<Rightarrow>
               (let providers = effective_providers opts d'
                in if length providers = 0 then (Inl ErrNoProvider, w, [])
                   else
                     (let fnames = sorted_fnames fileSpecs;
                          l = length fnames
                      in specs_loop URL d' c fileSpecs opts providers l 0 fnames
                           \<lparr>PackagesToBeInstalled = []\<rparr> w))))"

section \<open>The null driver (package none)\<close>

text \<open>\<^verbatim>\<open>New\<close> and \<^verbatim>\<open>IsPackageVersionInstalled\<close> of the driver \<^verbatim>\<open>none\<close>: no default
  provider, and no package is ever reported installed.\<close>

definition none_New :: "'w Distro" where
  "none_New =
     \<lparr>Info = \<lparr>InfoName = ''none'', DefaultProviders = [], Experimental = False,
              CacheIsNeededForGeneratingHash = False\<rparr>,
      IsPackageVersionInstalled = (\<lambda>sp w. ((False, None), w))\<rparr>"

section \<open>The debian driver (pkg/distro/debian/debian.go)\<close>

text \<open>The driver's state: \<^verbatim>\<open>info\<close> and the lazily computed map \<^verbatim>\<open>installed\<close>, nil
  (\<open>None\<close>) until the first query.\<close>

record debian =
  info :: distro_Info
  installed :: "(string, dpkgutil_Dpkg) gomap option"

definition debian_New :: debian where
  "debian_New =
     \<lparr>info = \<lparr>InfoName = ''debian'',
               DefaultProviders =
                 [''http://deb.debian.org/debian/{{.Name}}'',
                  ''http://deb.debian.org/debian-security/{{.Name}}'',
                  ''http://debian.notset.fr/snapshot/by-hash/SHA256/{{.SHA256}}''],
               Experimental = False, CacheIsNeededForGeneratingHash = False\<rparr>,
      installed = None\<rparr>"

text \<open>\<^verbatim>\<open>Installed()\<close> runs \<^verbatim>\<open>dpkg-query\<close>; what it returns is a parameter of the
  model, the Go pair \<^verbatim>\<open>(map, error)\<close>: the map may be nil, and it may be non-nil
  together with an error.\<close>

type_synonym 'p Installed = "(string, 'p) gomap option \<times> error option"

definition len_opt_map :: "('k, 'v) gomap option \<Rightarrow> nat" where
  "len_opt_map m = (case m of None \<Rightarrow> 0 | Some kvs \<Rightarrow> len_map kvs)"

definition keys_opt_map :: "('k, 'v) gomap option \<Rightarrow> 'k list" where
  "keys_opt_map m = (case m of None \<Rightarrow> [] | Some kvs \<Rightarrow> keys_of kvs)"

definition lookup_opt_map :: "('k, 'v) gomap option \<Rightarrow> 'k \<Rightarrow> 'v option" where
  "lookup_opt_map m k = (case m of None \<Rightarrow> None | Some kvs \<Rightarrow> map_of kvs k)"

text \<open>\<^verbatim>\<open>IsPackageVersionInstalled\<close>, lines 160 to 180.\<close>

definition debian_IsPackageVersionInstalled ::
  "dpkgutil_Dpkg Installed \<Rightarrow> debian \<Rightarrow> FileSpec \<Rightarrow> (bool \<times> error option) \<times> debian" where
  "debian_IsPackageVersionInstalled Installed d sp =
     (case Dpkg sp of
        None \<Rightarrow> ((False, Some (ErrNoDpkgInfo (Name sp))), d)
      | Some dp \<Rightarrow>
          (let (d1, err) =
                 (if installed d = None then (d\<lparr>installed := fst Installed\<rparr>, snd Installed)
                  else (d, None))
           in case err of
                Some e \<Rightarrow> ((False, Some (ErrDetectInstalled e)), d1)
              | None \<Rightarrow>
                  (let k = Package dp @
                             (if Architecture dp \<noteq> [] then '':'' @ Architecture dp else [])
                   in case lookup_opt_map (installed d1) k of
                        None \<Rightarrow> ((False, None), d1)
                      | Some inst \<Rightarrow> ((Version inst = Version dp, None), d1))))"

text \<open>A \<^verbatim>\<open>distro.HashWriter\<close> is called with a digest and a file name; it acts on the
  output \<open>'w\<close> and may fail.\<close>

type_synonym 'w HashWriter = "string \<Rightarrow> string \<Rightarrow> 'w \<Rightarrow> error option \<times> 'w"

text \<open>A \<^verbatim>\<open>control.BinaryParagraph\<close>: the field \<^verbatim>\<open>Package\<close> and the map
  \<^verbatim>\<open>Paragraph.Values\<close>.\<close>

record BinaryParagraph =
  ParagraphPackage :: string
  Values :: "(string, string) gomap"

text \<open>Lines 119 to 133 of \<^verbatim>\<open>generateHash\<close>: whether the paragraph is passed over
  because of the version seen before for its key. \<open>Parse\<close> and \<open>Compare\<close> are
  \<^verbatim>\<open>version.Parse\<close> and \<^verbatim>\<open>version.Compare\<close> of the Debian version library.\<close>

definition passed_over ::
  "(string \<Rightarrow> error + 'v) \<Rightarrow> ('v \<Rightarrow> 'v \<Rightarrow> int) \<Rightarrow> (string \<rightharpoonup> string) \<Rightarrow> string \<Rightarrow> string \<Rightarrow> bool"
  where
  "passed_over Parse Compare seen seenK ver =
     (case seen seenK of
        None \<Rightarrow> False
      | Some seenV \<Rightarrow>
          (case Parse seenV of
             Inl _ \<Rightarrow> True
           | Inr seenVParsed \<Rightarrow>
               (case Parse ver of
                  Inl _ \<Rightarrow> True
                | Inr verParsed \<Rightarrow> Compare seenVParsed verParsed > 0)))"

text \<open>The loop of \<^verbatim>\<open>generateHash\<close>, lines 115 to 150. The warnings it logs are left
  out: they change neither the output nor the control flow.\<close>

fun generateHash_loop ::
  "(string \<Rightarrow> error + 'v) \<Rightarrow> ('v \<Rightarrow> 'v \<Rightarrow> int) \<Rightarrow> 'w HashWriter \<Rightarrow> BinaryParagraph list \<Rightarrow>
   (string \<rightharpoonup> string) \<Rightarrow> 'w \<Rightarrow> error option \<times> 'w" where
  "generateHash_loop Parse Compare hw [] seen w = (None, w)"
| "generateHash_loop Parse Compare hw (f # rest) seen w =
     (let ver = index_str (Values f) ''Version'';
          seenK = ParagraphPackage f @ '':'' @ index_str (Values f) ''Architecture''
      in if passed_over Parse Compare seen seenK ver
         then generateHash_loop Parse Compare hw rest seen w
         else
           (let seen' = seen(seenK \<mapsto> ver);
                dpkgFilename = index_str (Values f) ''Filename''
            in if dpkgFilename = [] then generateHash_loop Parse Compare hw rest seen' w
               else
                 (let sha256Digest = index_str (Values f) ''SHA256''
                  in if sha256Digest = [] then generateHash_loop Parse Compare hw rest seen' w
                     else
                       (case hw sha256Digest dpkgFilename w of
                          (Some err, w') \<Rightarrow> (Some err, w')
                        | (None, w') \<Rightarrow> generateHash_loop Parse Compare hw rest seen' w'))))"

text \<open>\<^verbatim>\<open>generateHash\<close>, lines 106 to 151; \<open>Unmarshal\<close> is \<^verbatim>\<open>control.Unmarshal\<close> on
  the reader \<open>r\<close>.\<close>

definition generateHash ::
  "('r \<Rightarrow> error + BinaryParagraph list) \<Rightarrow> (string \<Rightarrow> error + 'v) \<Rightarrow> ('v \<Rightarrow> 'v \<Rightarrow> int) \<Rightarrow>
   'w HashWriter \<Rightarrow> 'r \<Rightarrow> 'w \<Rightarrow> error option \<times> 'w" where
  "generateHash Unmarshal Parse Compare hw r w =
     (case Unmarshal r of
        Inl err \<Rightarrow> (Some err, w)
      | Inr paragraphs \<Rightarrow> generateHash_loop Parse Compare hw paragraphs Map.empty w)"

text \<open>\<^verbatim>\<open>distro.HashOpts\<close>; the cache is a pointer.\<close>

record 'c HashOpts =
  FilterByName :: "string list"
  HashOptsCache :: "'c option"

text \<open>Starting \<^verbatim>\<open>apt-cache\<close> with its arguments: \<^verbatim>\<open>StdoutPipe\<close> fails, \<^verbatim>\<open>Start\<close>
  fails, or the process runs and its output can be read.\<close>

datatype 'r started = PipeFailed error | StartFailed error | Started 'r

text \<open>\<^verbatim>\<open>GenerateHash\<close> of the debian driver, lines 70 to 104. \<open>Installed\<close> is what
  \<^verbatim>\<open>Installed()\<close> returns if called, \<open>Command\<close> starts \<^verbatim>\<open>apt-cache\<close>.\<close>

definition debian_GenerateHash ::
  "dpkgutil_Dpkg Installed \<Rightarrow> (string list \<Rightarrow> 'r started) \<Rightarrow>
   ('r \<Rightarrow> error + BinaryParagraph list) \<Rightarrow> (string \<Rightarrow> error + 'v) \<Rightarrow> ('v \<Rightarrow> 'v \<Rightarrow> int) \<Rightarrow>
   'w HashWriter \<Rightarrow> 'c HashOpts \<Rightarrow> 'w \<Rightarrow> error option \<times> 'w" where
  "debian_GenerateHash Installed Command Unmarshal Parse Compare hw opts w =
     (case (if length (FilterByName opts) = 0 then
              (case Installed of
                 (dpkgs, Some err) \<Rightarrow> Inl err
               | (dpkgs, None) \<Rightarrow>
                   if len_opt_map dpkgs = 0 then Inl ErrNoPackageInstalled
                   else Inr (FilterByName opts @ keys_opt_map dpkgs))
            else Inr (FilterByName opts)) of
        Inl err \<Rightarrow> (Some err, w)
      | Inr names \<Rightarrow>
          (let aptCacheArgs = ''show'' # sort names
           in case Command aptCacheArgs of
                PipeFailed err \<Rightarrow> (Some err, w)
              | StartFailed err \<Rightarrow> (Some (ErrStart (''apt-cache'' # aptCacheArgs) err), w)
              | Started aptCacheR \<Rightarrow>
                  (case generateHash Unmarshal Parse Compare hw aptCacheR w of
                     (Some err, w') \<Rightarrow>
                       (Some (ErrParseOutput (''apt-cache'' # aptCacheArgs) err), w')
                   | (None, w') \<Rightarrow> (None, w'))))"

section \<open>The alpine driver (pkg/distro/alpine/alpine.go)\<close>

record alpine =
  alpine_info :: distro_Info
  alpine_installed :: "(string, apkutil_APK) gomap option"

definition alpine_New :: alpine where
  "alpine_New =
     \<lparr>alpine_info = \<lparr>InfoName = ''alpine'',
                      DefaultProviders = [''https://dl-cdn.alpinelinux.org/alpine/{{.Name}}''],
                      Experimental = True, CacheIsNeededForGeneratingHash = True\<rparr>,
      alpine_installed = None\<rparr>"

text \<open>\<^verbatim>\<open>IsPackageVersionInstalled\<close>, lines 150 to 166.\<close>

definition alpine_IsPackageVersionInstalled ::
  "apkutil_APK Installed \<Rightarrow> alpine \<Rightarrow> FileSpec \<Rightarrow> (bool \<times> error option) \<times> alpine" where
  "alpine_IsPackageVersionInstalled Installed d sp =
     (case APK sp of
        None \<Rightarrow> ((False, Some (ErrNoApkInfo (Name sp))), d)
      | Some apk \<Rightarrow>
          (let (d1, err) =
                 (if alpine_installed d = None
                  then (d\<lparr>alpine_installed := fst Installed\<rparr>, snd Installed)
                  else (d, None))
           in case err of
                Some e \<Rightarrow> ((False, Some (ErrDetectInstalled e)), d1)
              | None \<Rightarrow>
                  (case lookup_opt_map (alpine_installed d1) (APKPackage apk) of
                     None \<Rightarrow> ((False, None), d1)
                   | Some inst \<Rightarrow> ((APKVersion inst = APKVersion apk, None), d1))))"

text \<open>\<^verbatim>\<open>GenerateHash\<close> of the alpine driver, lines 53 to 83. \<open>MkdirTemp\<close> is the result
  of \<^verbatim>\<open>os.MkdirTemp\<close>, \<open>Output\<close> runs \<^verbatim>\<open>apk\<close> with its arguments and returns what it
  printed, and \<open>generateHashWithURLReader\<close> is the method of that name, which reads
  the printed URLs, asks the cache for each digest and calls the hash writer.\<close>

definition alpine_GenerateHash ::
  "apkutil_APK Installed \<Rightarrow> (error + string) \<Rightarrow> (string list \<Rightarrow> error + 'b) \<Rightarrow>
   ('w HashWriter \<Rightarrow> 'c \<Rightarrow> 'b \<Rightarrow> 'w \<Rightarrow> error option \<times> 'w) \<Rightarrow>
   'w HashWriter \<Rightarrow> 'c HashOpts \<Rightarrow> 'w \<Rightarrow> error option \<times> 'w" where
  "alpine_GenerateHash Installed MkdirTemp Output generateHashWithURLReader hw opts w =
     (case HashOptsCache opts of
        None \<Rightarrow> (Some ErrCacheRequired, w)
      | Some c \<Rightarrow>
          (case (if length (FilterByName opts) = 0 then
                   (case Installed of
                      (apks, Some err) \<Rightarrow> Inl err
                    | (apks, None) \<Rightarrow>
                        if len_opt_map apks = 0 then Inl ErrNoPackageInstalled
                        else Inr (FilterByName opts @ keys_opt_map apks))
                 else Inr (FilterByName opts)) of
             Inl err \<Rightarrow> (Some err, w)
           | Inr names \<Rightarrow>
               (case MkdirTemp of
                  Inl err \<Rightarrow> (Some err, w)
                | Inr dummyDir \<Rightarrow>
                    (let args = [''fetch'', ''--simulate'', ''--output='' @ dummyDir, ''--url'']
                                @ sort names
                     in case Output args of
                          Inl err \<Rightarrow> (Some (ErrExecute (''apk'' # args) err), w)
                        | Inr urls \<Rightarrow> generateHashWithURLReader hw c urls w))))"

section \<open>Hash generation with dedupe (cmd/repro-get/hash\_generate.go)\<close>

text \<open>The hash writer that \<^verbatim>\<open>hashGenerateAction\<close> builds on lines 72 to 78 around
  the writer \<open>hw0\<close>, for the parsed prior manifest \<open>oldSums\<close>.\<close>

definition hw_dedupe :: "(string, string) gomap \<Rightarrow> 'w HashWriter \<Rightarrow> 'w HashWriter" where
  "hw_dedupe oldSums hw0 sha256sum filename w =
     (if index_str oldSums filename = sha256sum then (None, w)
      else hw0 sha256sum filename w)"


text \<open>A hash writer that never fails and keeps the entries it is given, in order: the
  output is the manifest as a list of (digest, file name) pairs.\<close>

definition hw_record :: "(string \<times> string) list HashWriter" where
  "hw_record sha256sum filename out = (None, out @ [(sha256sum, filename)])"

section \<open>Drivers and a cache to run the downloader on\<close>

text \<open>The debian driver behind the \<^verbatim>\<open>Distro\<close> interface. The world is the driver's
  state together with the state \<open>'s\<close> of everything else.\<close>

definition debian_Distro :: "dpkgutil_Dpkg Installed \<Rightarrow> (debian \<times> 's) Distro" where
  "debian_Distro Installed =
     \<lparr>Info = info debian_New,
      IsPackageVersionInstalled =
        (\<lambda>sp (d, s). case debian_IsPackageVersionInstalled Installed d sp of
                        (r, d') \<Rightarrow> (r, (d', s)))\<rparr>"

text \<open>A cache for the examples. Its state is the list of the digests it holds; a fetch
  succeeds for the URLs in \<open>up\<close> and fails for every other URL.\<close>

definition example_cache :: "url list \<Rightarrow> ('d \<times> string list) Cache" where
  "example_cache up =
     \<lparr>Cached = (\<lambda>sha (d, held). ((sha \<in> set held, None), (d, held))),
      Ensure = (\<lambda>u sha (d, held).
                  if u \<in> set up then (None, (d, held @ [sha]))
                  else (Some (External ''fetch failed''), (d, held)))\<rparr>"

text \<open>A URL template for the examples: the provider followed by the name; the empty
  provider does not resolve.\<close>

definition example_URL :: "FileSpec \<Rightarrow> string \<Rightarrow> error + url" where
  "example_URL sp provider =
     (if provider = [] then Inl (External ''bad template'') else Inr (provider @ Name sp))"

definition example_deb :: "string \<Rightarrow> string \<Rightarrow> string \<Rightarrow> FileSpec" where
  "example_deb name ver sha =
     \<lparr>Name = name, Basename = name, SHA256 = sha,
      Dpkg = Some \<lparr>Package = name, Version = ver, Architecture = []\<rparr>, APK = None\<rparr>"

text \<open>A batch of two packages, given in the order \<open>b\<close>, \<open>a\<close>, and a system on which
  \<open>a\<close> is installed in the wanted version.\<close>

definition example_a :: FileSpec where
  "example_a = example_deb ''a'' ''1.0'' ''s1''"

definition example_b :: FileSpec where
  "example_b = example_deb ''b'' ''2.0'' ''s2''"

definition example_batch :: "(string, FileSpec option) gomap" where
  "example_batch = [(''b.deb'', Some example_b), (''a.deb'', Some example_a)]"

definition example_installed :: "dpkgutil_Dpkg Installed" where
  "example_installed =
     (Some [(''a'', \<lparr>Package = ''a'', Version = ''1.0'', Architecture = []\<rparr>)], None)"

text \<open>A version library and a package index for the examples: a version is its
  text, compared as text; a paragraph of the index names the package, the version and
  the file.\<close>

definition example_Parse :: "string \<Rightarrow> error + string" where
  "example_Parse v = (if v = [] then Inl (External ''empty version'') else Inr v)"

definition example_Compare :: "string \<Rightarrow> string \<Rightarrow> int" where
  "example_Compare a b = (if a < b then - 1 else if a = b then 0 else 1)"

definition example_paragraph :: "string \<Rightarrow> string \<Rightarrow> BinaryParagraph" where
  "example_paragraph pkg ver =
     \<lparr>ParagraphPackage = pkg,
      Values = [(''Version'', ver), (''Architecture'', ''amd64''),
                (''Filename'', ''pool/'' @ pkg @ ''_'' @ ver @ ''_amd64.deb''),
                (''SHA256'', ''sha-of-'' @ pkg @ ''-'' @ ver)]\<rparr>"

text \<open>The output of \<^verbatim>\<open>apt-cache show\<close> for the examples: version 1.0 of every
  package asked for.\<close>

definition example_Unmarshal :: "string list \<Rightarrow> error + BinaryParagraph list" where
  "example_Unmarshal args = Inr (map (\<lambda>name. example_paragraph name ''1.0'') (tl args))"

section \<open>Reading the events of a run\<close>

text \<open>Whether the status line number \<open>k\<close> of the run says "Already installed", and
  the numbers of the status lines in the order they were printed.\<close>

definition already_installed_line :: "event list \<Rightarrow> nat \<Rightarrow> bool" where
  "already_installed_line evs k =
     list_ex (\<lambda>ev. case ev of Println k' l bn st \<Rightarrow> k' = k \<and> st = AlreadyInstalled | _ \<Rightarrow> False) evs"

fun line_numbers :: "event list \<Rightarrow> nat list" where
  "line_numbers [] = []"
| "line_numbers (Println k l bn st # evs) = k # line_numbers evs"
| "line_numbers (ev # evs) = line_numbers evs"

text \<open>Whether, in a run of \<^verbatim>\<open>Download\<close> that starts in the world \<open>w\<close>, the driver
  reports the package of the \<open>k\<close>-th name as installed when its turn comes:
  \<^verbatim>\<open>SkipInstalled\<close> is set, the iterations for the \<open>k\<close> names before it end without
  error, and \<^verbatim>\<open>IsPackageVersionInstalled\<close>, called on the file spec of the name in the
  world those iterations leave, answers true without error.\<close>

definition reported_installed ::
  "(FileSpec \<Rightarrow> string \<Rightarrow> error + url) \<Rightarrow> 'w Distro \<Rightarrow> 'w Cache \<Rightarrow>
   (string, FileSpec option) gomap \<Rightarrow> Opts \<Rightarrow> 'w \<Rightarrow> nat \<Rightarrow> bool" where
  "reported_installed URL d c fileSpecs opts w k =
     (SkipInstalled opts \<and>
      (case specs_loop URL d c fileSpecs opts (effective_providers opts d)
              (length (sorted_fnames fileSpecs)) 0 (take k (sorted_fnames fileSpecs))
              \<lparr>PackagesToBeInstalled = []\<rparr> w of
         (Inl e, wk, evsk) \<Rightarrow> False
       | (Inr resk, wk, evsk) \<Rightarrow>
           (case index_ptr fileSpecs (sorted_fnames fileSpecs ! k) of
              None \<Rightarrow> False
            | Some sp \<Rightarrow> fst (IsPackageVersionInstalled d sp wk) = (True, None))))"

section \<open>Running the loops in two parts\<close>

text \<open>A run of the provider loop over \<open>ps1 @ ps2\<close> is a run over \<open>ps1\<close> that, when it
  exhausts \<open>ps1\<close>, goes on over \<open>ps2\<close>. So "the loop reaches the provider after
  \<open>ps1\<close>" is "the run over \<open>ps1\<close> ends \<open>Exhausted\<close>".\<close>

lemma providers_loop_append:
  "providers_loop URL c i l sp n j (ps1 @ ps2) w =
     (case providers_loop URL c i l sp n j ps1 w of
        (Exhausted, w', evs) \<Rightarrow>
          (case providers_loop URL c i l sp n (j + length ps1) ps2 w' of
             (r, w'', evs') \<Rightarrow> (r, w'', evs @ evs'))
      | (Break, w', evs) \<Rightarrow> (Break, w', evs)
      | (Return e, w', evs) \<Rightarrow> (Return e, w', evs))"
proof (induction ps1 arbitrary: j w)
  case Nil
  then show ?case by (simp split: prod.splits)
next
  case (Cons p ps1)
  show ?case
    by (simp add: Cons.IH [of "Suc j"] split: sum.splits prod.splits option.splits loop_exit.splits)
qed

lemma specs_loop_append:
  "specs_loop URL d c fileSpecs opts providers l i (ns1 @ ns2) res w =
     (case specs_loop URL d c fileSpecs opts providers l i ns1 res w of
        (Inl e, w', evs) \<Rightarrow> (Inl e, w', evs)
      | (Inr res', w', evs) \<Rightarrow>
          (case specs_loop URL d c fileSpecs opts providers l (i + length ns1) ns2 res' w' of
             (r, w'', evs') \<Rightarrow> (r, w'', evs @ evs')))"
proof (induction ns1 arbitrary: i res w)
  case Nil
  then show ?case by (simp split: prod.splits)
next
  case (Cons f ns1)
  show ?case
    by (simp add: Cons.IH [of "Suc i"] split: sum.splits prod.splits)
qed

text \<open>\<^verbatim>\<open>Download\<close> at the file name \<open>fname\<close>, once the names before it have been
  processed without error.\<close>

lemma Download_at:
  assumes "effective_providers opts d \<noteq> []"
    and "sorted_fnames fileSpecs = names1 @ fname # names2"
    and "specs_loop URL d c fileSpecs opts (effective_providers opts d)
           (length (sorted_fnames fileSpecs)) 0 names1 \<lparr>PackagesToBeInstalled = []\<rparr> w0
         = (Inr res1, w1, evs1)"
  shows "Download URL (Some d) (Some c) fileSpecs opts w0 =
     (case download_one URL d c opts (effective_providers opts d)
             (length (sorted_fnames fileSpecs)) (length names1) (index_ptr fileSpecs fname) res1 w1 of
        (Inl e, w', evs) \<Rightarrow> (Inl e, w', evs1 @ evs)
      | (Inr res', w', evs) \<Rightarrow>
          (case specs_loop URL d c fileSpecs opts (effective_providers opts d)
                  (length (sorted_fnames fileSpecs)) (length names1 + 1) names2 res' w' of
             (r, w'', evs') \<Rightarrow> (r, w'', evs1 @ evs @ evs')))"
  using assms
  by (simp add: Download_def Let_def specs_loop_append split: sum.splits prod.splits)

section \<open>The events and the result of the loops\<close>

text \<open>The status lines of iteration \<open>i\<close> carry the number \<open>i + 1\<close>, the total
  \<open>l\<close> and the base name of the file spec; the two tests print nothing.\<close>

lemma check_installed_no_println:
  "check_installed d opts sp w = (b, w', evs) \<Longrightarrow> Println k l' bn s \<notin> set evs"
  by (auto simp: check_installed_def split: if_splits prod.splits option.splits)

lemma check_cached_no_println:
  "check_cached c sp w = (b, w', evs) \<Longrightarrow> Println k l' bn s \<notin> set evs"
  by (auto simp: check_cached_def split: if_splits prod.splits option.splits)

lemma providers_loop_println:
  "providers_loop URL c i l sp n j ps w = (r, w', evs) \<Longrightarrow> Println k l' bn s \<in> set evs
   \<Longrightarrow> k = i + 1 \<and> l' = l \<and> bn = Basename sp \<and> s \<noteq> AlreadyInstalled"
proof (induction ps arbitrary: j w r w' evs)
  case Nil
  then show ?case by simp
next
  case (Cons p ps)
  then show ?case
    by (fastforce split: sum.splits prod.splits option.splits if_splits)
qed

lemma check_installed_True:
  "check_installed d opts sp w = (True, w', evs) \<Longrightarrow> SkipInstalled opts"
  by (auto simp: check_installed_def split: if_splits)

lemma download_one_cases:
  assumes "download_one URL d c opts providers l i sp_ptr res w = (r, w', evs)"
  obtains
    (nil) "sp_ptr = None" "r = Inl PanicNilPointer" "evs = []"
  | (installed) sp evs1 where "sp_ptr = Some sp" "check_installed d opts sp w = (True, w', evs1)"
      "r = Inr res" "evs = evs1 @ [Println (i + 1) l (Basename sp) AlreadyInstalled]"
  | (cached) sp w1 evs1 evs2 where "sp_ptr = Some sp"
      "check_installed d opts sp w = (False, w1, evs1)" "check_cached c sp w1 = (True, w', evs2)"
      "r = Inr (res\<lparr>PackagesToBeInstalled := PackagesToBeInstalled res @ [sp]\<rparr>)"
      "evs = evs1 @ evs2 @ [Println (i + 1) l (Basename sp) IsCached]"
  | (failed) sp w1 evs1 w2 evs2 evs3 e where "sp_ptr = Some sp"
      "check_installed d opts sp w = (False, w1, evs1)" "check_cached c sp w1 = (False, w2, evs2)"
      "providers_loop URL c i l sp (length providers) 0 providers w2 = (Return e, w', evs3)"
      "r = Inl e" "evs = evs1 @ evs2 @ evs3"
  | (fetched) sp w1 evs1 w2 evs2 evs3 x where "sp_ptr = Some sp"
      "check_installed d opts sp w = (False, w1, evs1)" "check_cached c sp w1 = (False, w2, evs2)"
      "providers_loop URL c i l sp (length providers) 0 providers w2 = (x, w', evs3)"
      "\<And>e. x \<noteq> Return e"
      "r = Inr (res\<lparr>PackagesToBeInstalled := PackagesToBeInstalled res @ [sp]\<rparr>)"
      "evs = evs1 @ evs2 @ evs3"
  using assms
  by (cases sp_ptr; cases "check_installed d opts (the sp_ptr) w")
     (auto simp: download_one_def split: prod.splits bool.splits loop_exit.splits)

lemma download_one_println:
  assumes "download_one URL d c opts providers l i sp_ptr res w = (r, w', evs)"
    and "Println k l' bn s \<in> set evs"
  shows "k = i + 1 \<and> l' = l \<and> (\<exists>sp. sp_ptr = Some sp \<and> bn = Basename sp)"
  using assms(1)
proof (cases rule: download_one_cases)
  case nil
  with assms(2) show ?thesis by simp
next
  case (installed sp evs1)
  with assms(2) check_installed_no_println [OF installed(2)] show ?thesis by auto
next
  case (cached sp w1 evs1 evs2)
  with assms(2) check_installed_no_println [OF cached(2)] check_cached_no_println [OF cached(3)]
  show ?thesis by auto
next
  case (failed sp w1 evs1 w2 evs2 evs3 e)
  with assms(2) check_installed_no_println [OF failed(2)] check_cached_no_println [OF failed(3)]
    providers_loop_println [OF failed(4)]
  show ?thesis by auto
next
  case (fetched sp w1 evs1 w2 evs2 evs3 x)
  with assms(2) check_installed_no_println [OF fetched(2)] check_cached_no_println [OF fetched(3)]
    providers_loop_println [OF fetched(4)]
  show ?thesis by auto
qed

lemma already_installed_line_iff:
  "already_installed_line evs k \<longleftrightarrow> (\<exists>l bn. Println k l bn AlreadyInstalled \<in> set evs)"
  by (induction evs) (auto simp: already_installed_line_def split: event.splits)

lemma already_installed_line_append:
  "already_installed_line (evs @ evs') k \<longleftrightarrow>
     already_installed_line evs k \<or> already_installed_line evs' k"
  by (simp add: already_installed_line_def)

lemma line_numbers_append: "line_numbers (evs @ evs') = line_numbers evs @ line_numbers evs'"
  by (induction evs rule: line_numbers.induct) simp_all

lemma set_line_numbers: "set (line_numbers evs) = {k. \<exists>l bn st. Println k l bn st \<in> set evs}"
  by (induction evs rule: line_numbers.induct) auto

lemma download_one_Inr:
  assumes "download_one URL d c opts providers l i sp_ptr res w = (Inr res', w', evs)"
  shows "\<exists>sp. sp_ptr = Some sp \<and>
           (if already_installed_line evs (i + 1) then res' = res \<and> SkipInstalled opts
            else res' = res\<lparr>PackagesToBeInstalled := PackagesToBeInstalled res @ [sp]\<rparr>)"
  using assms
proof (cases rule: download_one_cases)
  case nil
  then show ?thesis by simp
next
  case (installed sp evs1)
  then show ?thesis by (auto simp: already_installed_line_iff dest: check_installed_True)
next
  case (cached sp w1 evs1 evs2)
  with check_installed_no_println [OF cached(2)] check_cached_no_println [OF cached(3)]
  show ?thesis by (auto simp: already_installed_line_iff)
next
  case (failed sp w1 evs1 w2 evs2 evs3 e)
  then show ?thesis by simp
next
  case (fetched sp w1 evs1 w2 evs2 evs3 x)
  have "Println k l' bn AlreadyInstalled \<notin> set evs3" for k l' bn
    using providers_loop_println [OF fetched(4), of k l' bn AlreadyInstalled] by auto
  then have "\<not> already_installed_line evs (i + 1)"
    using fetched(7) check_installed_no_println [OF fetched(2)]
      check_cached_no_println [OF fetched(3)]
    by (auto simp: already_installed_line_iff)
  with fetched show ?thesis by simp
qed

lemma specs_loop_println:
  "specs_loop URL d c fileSpecs opts providers l i names res w = (r, w', evs)
   \<Longrightarrow> Println k l' bn s \<in> set evs
   \<Longrightarrow> i < k \<and> k \<le> i + length names \<and> l' = l \<and>
       (\<exists>sp. index_ptr fileSpecs (names ! (k - 1 - i)) = Some sp \<and> bn = Basename sp)"
proof (induction names arbitrary: i res w r w' evs)
  case Nil
  then show ?case by simp
next
  case (Cons f names)
  obtain r1 w1 evs1 where one:
    "download_one URL d c opts providers l i (index_ptr fileSpecs f) res w = (r1, w1, evs1)"
    by (metis prod_cases3)
  show ?case
  proof (cases r1)
    case (Inl e)
    with Cons.prems one have "Println k l' bn s \<in> set evs1" by simp
    from download_one_println [OF one this] show ?thesis by auto
  next
    case (Inr res1)
    obtain r2 w2 evs2 where rest:
      "specs_loop URL d c fileSpecs opts providers l (i + 1) names res1 w1 = (r2, w2, evs2)"
      by (metis prod_cases3)
    with Cons.prems one Inr have "evs = evs1 @ evs2" by simp
    with Cons.prems(2) consider "Println k l' bn s \<in> set evs1" | "Println k l' bn s \<in> set evs2"
      by auto
    then show ?thesis
    proof cases
      case 1
      from download_one_println [OF one this] show ?thesis by auto
    next
      case 2
      from Cons.IH [OF rest this] have k: "i + 1 < k" by simp
      then have "k - 1 - i = Suc (k - 1 - (i + 1))" by arith
      with Cons.IH [OF rest 2] show ?thesis by auto
    qed
  qed
qed

lemma specs_loop_result:
  "specs_loop URL d c fileSpecs opts providers l i names res w = (Inr res', w', evs) \<Longrightarrow>
   map Some (PackagesToBeInstalled res') =
     map Some (PackagesToBeInstalled res) @
     map (\<lambda>(k, f). index_ptr fileSpecs f)
       (filter (\<lambda>(k, f). \<not> already_installed_line evs (k + 1)) (enumerate i names))"
proof (induction names arbitrary: i res w res' w' evs)
  case Nil
  then show ?case by simp
next
  case (Cons f names)
  from Cons.prems obtain res1 w1 evs1 evs2 where
    one: "download_one URL d c opts providers l i (index_ptr fileSpecs f) res w = (Inr res1, w1, evs1)"
    and rest: "specs_loop URL d c fileSpecs opts providers l (i + 1) names res1 w1 = (Inr res', w', evs2)"
    and evs: "evs = evs1 @ evs2"
    by (auto split: sum.splits prod.splits)
  have later: "\<not> already_installed_line evs2 (Suc i)"
    using specs_loop_println [OF rest] by (fastforce simp: already_installed_line_iff)
  have earlier: "\<not> already_installed_line evs1 (Suc k)"
    if "(k, f') \<in> set (enumerate (Suc i) names)" for k f'
    using download_one_println [OF one] that
    by (fastforce simp: already_installed_line_iff in_set_enumerate_eq)
  have tail: "filter (\<lambda>(k, f). \<not> already_installed_line evs (Suc k)) (enumerate (Suc i) names)
            = filter (\<lambda>(k, f). \<not> already_installed_line evs2 (Suc k)) (enumerate (Suc i) names)"
    by (rule filter_cong) (auto simp: evs already_installed_line_append dest: earlier)
  have head: "already_installed_line evs (Suc i) = already_installed_line evs1 (Suc i)"
    using later by (simp add: evs already_installed_line_append)
  from download_one_Inr [OF one] obtain sp where sp: "index_ptr fileSpecs f = Some sp"
    and upd: "if already_installed_line evs1 (i + 1) then res1 = res
              else res1 = res\<lparr>PackagesToBeInstalled := PackagesToBeInstalled res @ [sp]\<rparr>"
    by auto
  from Cons.IH [OF rest] upd show ?case
    by (simp add: tail head sp split: if_splits)
qed

lemma sorted_constant: "\<forall>k \<in> set ks. k = (n::nat) \<Longrightarrow> sorted ks"
  by (induction ks) auto

lemma specs_loop_line_numbers:
  "specs_loop URL d c fileSpecs opts providers l i names res w = (r, w', evs)
   \<Longrightarrow> sorted (line_numbers evs)"
proof (induction names arbitrary: i res w r w' evs)
  case Nil
  then show ?case by simp
next
  case (Cons f names)
  obtain r1 w1 evs1 where one:
    "download_one URL d c opts providers l i (index_ptr fileSpecs f) res w = (r1, w1, evs1)"
    by (metis prod_cases3)
  have first: "\<forall>k \<in> set (line_numbers evs1). k = i + 1"
    using download_one_println [OF one] by (auto simp: set_line_numbers)
  then have sorted1: "sorted (line_numbers evs1)"
    by (rule sorted_constant)
  show ?case
  proof (cases r1)
    case (Inl e)
    with Cons.prems one sorted1 show ?thesis by simp
  next
    case (Inr res1)
    obtain r2 w2 evs2 where rest:
      "specs_loop URL d c fileSpecs opts providers l (i + 1) names res1 w1 = (r2, w2, evs2)"
      by (metis prod_cases3)
    with Cons.prems one Inr have evs: "evs = evs1 @ evs2" by simp
    have "\<forall>k \<in> set (line_numbers evs2). i + 1 < k"
      using specs_loop_println [OF rest] by (auto simp: set_line_numbers)
    with first sorted1 Cons.IH [OF rest] show ?thesis
      by (auto simp: evs line_numbers_append sorted_append)
  qed
qed

lemma sorted_fnames_props:
  "sorted (sorted_fnames fileSpecs) \<and> distinct (sorted_fnames fileSpecs) \<and>
   set (sorted_fnames fileSpecs) = dom (map_of fileSpecs)"
  by (simp add: sorted_fnames_def keys_of_def dom_map_of_conv_image_fst)

lemma sorted_fnames_cong:
  "map_of fileSpecs' = map_of fileSpecs \<Longrightarrow> sorted_fnames fileSpecs' = sorted_fnames fileSpecs"
  using sorted_fnames_props [of fileSpecs] sorted_fnames_props [of fileSpecs']
  by (intro sorted_distinct_set_unique) simp_all

lemma index_ptr_cong:
  "map_of fileSpecs' = map_of fileSpecs \<Longrightarrow> index_ptr fileSpecs' = index_ptr fileSpecs"
  by (rule ext) (simp add: index_ptr_def)

lemma specs_loop_cong:
  "index_ptr fileSpecs' = index_ptr fileSpecs \<Longrightarrow>
   specs_loop URL d c fileSpecs' opts providers l i names res w =
   specs_loop URL d c fileSpecs opts providers l i names res w"
  by (induction names arbitrary: i res w)
     (simp_all cong: sum.case_cong prod.case_cong)

lemma Download_cong:
  assumes "map_of fileSpecs' = map_of fileSpecs"
  shows "Download URL d cache fileSpecs' opts w = Download URL d cache fileSpecs opts w"
  unfolding Download_def sorted_fnames_cong [OF assms]
    specs_loop_cong [OF index_ptr_cong [OF assms]] ..

lemma enumerate_filter_nths:
  "map (\<lambda>(k, f). g f) (filter (\<lambda>(k, f). P k) (enumerate 0 xs)) = map g (nths xs {k. P k})"
proof -
  have "enumerate 0 xs = map (\<lambda>(a, b). (b, a)) (zip xs [0..<length xs])"
    by (simp add: enumerate_eq_zip zip_commute [of "[0..<length xs]" xs])
  then show ?thesis
    by (simp add: nths_def filter_map comp_def case_prod_unfold)
qed

lemma download_one_AlreadyInstalled:
  assumes "download_one URL d c opts providers l i sp_ptr res w = (r, w', evs)"
    and "Println k l' bn AlreadyInstalled \<in> set evs"
  shows "SkipInstalled opts"
  using assms(1)
proof (cases rule: download_one_cases)
  case nil
  with assms(2) show ?thesis by simp
next
  case (installed sp evs1)
  then show ?thesis by (auto dest: check_installed_True)
next
  case (cached sp w1 evs1 evs2)
  with assms(2) check_installed_no_println [OF cached(2)] check_cached_no_println [OF cached(3)]
  show ?thesis by auto
next
  case (failed sp w1 evs1 w2 evs2 evs3 e)
  with assms(2) check_installed_no_println [OF failed(2)] check_cached_no_println [OF failed(3)]
    providers_loop_println [OF failed(4), of k l' bn AlreadyInstalled]
  show ?thesis by auto
next
  case (fetched sp w1 evs1 w2 evs2 evs3 x)
  with assms(2) check_installed_no_println [OF fetched(2)] check_cached_no_println [OF fetched(3)]
    providers_loop_println [OF fetched(4), of k l' bn AlreadyInstalled]
  show ?thesis by auto
qed

lemma specs_loop_AlreadyInstalled:
  "specs_loop URL d c fileSpecs opts providers l i names res w = (r, w', evs)
   \<Longrightarrow> Println k l' bn AlreadyInstalled \<in> set evs \<Longrightarrow> SkipInstalled opts"
proof (induction names arbitrary: i res w r w' evs)
  case Nil
  then show ?case by simp
next
  case (Cons f names)
  obtain r1 w1 evs1 where one:
    "download_one URL d c opts providers l i (index_ptr fileSpecs f) res w = (r1, w1, evs1)"
    by (metis prod_cases3)
  show ?case
  proof (cases r1)
    case (Inl e)
    with Cons.prems one have "Println k l' bn AlreadyInstalled \<in> set evs1" by simp
    from download_one_AlreadyInstalled [OF one this] show ?thesis .
  next
    case (Inr res1)
    obtain r2 w2 evs2 where rest:
      "specs_loop URL d c fileSpecs opts providers l (i + 1) names res1 w1 = (r2, w2, evs2)"
      by (metis prod_cases3)
    with Cons.prems one Inr have "evs = evs1 @ evs2" by simp
    with Cons.prems(2) consider "Println k l' bn AlreadyInstalled \<in> set evs1"
      | "Println k l' bn AlreadyInstalled \<in> set evs2"
      by auto
    then show ?thesis
    proof cases
      case 1
      from download_one_AlreadyInstalled [OF one this] show ?thesis .
    next
      case 2
      from Cons.IH [OF rest this] show ?thesis .
    qed
  qed
qed

text \<open>A run of \<^verbatim>\<open>Download\<close> that gets past the checks is the loop over the sorted
  names.\<close>

lemma Download_specs_loop:
  assumes "Download URL d cache fileSpecs opts w = (Inr res, w', evs)"
  obtains d' c where "d = Some d'" "cache = Some c"
    "specs_loop URL d' c fileSpecs opts (effective_providers opts d')
       (length (sorted_fnames fileSpecs)) 0 (sorted_fnames fileSpecs)
       \<lparr>PackagesToBeInstalled = []\<rparr> w = (Inr res, w', evs)"
  using assms by (auto simp: Download_def Let_def split: option.splits if_splits)

lemma Download_run:
  assumes "Download URL d cache fileSpecs opts w = (r, w', evs)"
  obtains (rejected) "evs = []"
  | (loop) d' c where "d = Some d'" "cache = Some c"
      "specs_loop URL d' c fileSpecs opts (effective_providers opts d')
         (length (sorted_fnames fileSpecs)) 0 (sorted_fnames fileSpecs)
         \<lparr>PackagesToBeInstalled = []\<rparr> w = (r, w', evs)"
  using assms by (auto simp: Download_def Let_def split: option.splits if_splits)

lemma Download_result_nths:
  assumes "Download URL d cache fileSpecs opts w = (Inr res, w', evs)"
  shows "map Some (PackagesToBeInstalled res) =
           map (index_ptr fileSpecs)
             (nths (sorted_fnames fileSpecs) {k. \<not> already_installed_line evs (k + 1)})"
proof -
  from assms obtain d' c where loop:
    "specs_loop URL d' c fileSpecs opts (effective_providers opts d')
       (length (sorted_fnames fileSpecs)) 0 (sorted_fnames fileSpecs)
       \<lparr>PackagesToBeInstalled = []\<rparr> w = (Inr res, w', evs)"
    by (rule Download_specs_loop)
  from specs_loop_result [OF loop] show ?thesis
    by (simp add: enumerate_filter_nths)
qed

lemma Download_no_skip_no_line:
  assumes "Download URL d cache fileSpecs opts w = (Inr res, w', evs)"
    and "\<not> SkipInstalled opts"
  shows "\<not> already_installed_line evs k"
proof -
  from assms(1) obtain d' c where loop:
    "specs_loop URL d' c fileSpecs opts (effective_providers opts d')
       (length (sorted_fnames fileSpecs)) 0 (sorted_fnames fileSpecs)
       \<lparr>PackagesToBeInstalled = []\<rparr> w = (Inr res, w', evs)"
    by (rule Download_specs_loop)
  show ?thesis
    using assms(2) specs_loop_AlreadyInstalled [OF loop]
    by (auto simp: already_installed_line_iff)
qed

text \<open>The status line "Already installed" of an iteration is printed exactly when
  \<^verbatim>\<open>SkipInstalled\<close> is set and the driver answers true without error.\<close>

lemma check_installed_iff:
  "(\<exists>w' evs. check_installed d opts sp w = (True, w', evs)) \<longleftrightarrow>
     SkipInstalled opts \<and> (\<exists>w2. IsPackageVersionInstalled d sp w = ((True, None), w2))"
  by (auto simp: check_installed_def split: prod.splits option.splits)

lemma download_one_line_iff:
  assumes "download_one URL d c opts providers l i (Some sp) res w = (r, w', evs)"
  shows "already_installed_line evs (i + 1) \<longleftrightarrow>
     SkipInstalled opts \<and> (\<exists>w2. IsPackageVersionInstalled d sp w = ((True, None), w2))"
  using assms
proof (cases rule: download_one_cases)
  case nil
  then show ?thesis by simp
next
  case (installed sp' evs1)
  then have "\<exists>w' evs. check_installed d opts sp w = (True, w', evs)" by auto
  with installed show ?thesis
    by (auto simp: check_installed_iff [symmetric] already_installed_line_iff)
next
  case (cached sp' w1 evs1 evs2)
  then have no: "\<not> (\<exists>w' evs. check_installed d opts sp w = (True, w', evs))" by auto
  have "\<not> already_installed_line evs (i + 1)"
    using cached(5) check_installed_no_println [OF cached(2)] check_cached_no_println [OF cached(3)]
    by (auto simp: already_installed_line_iff)
  with no show ?thesis by (simp add: check_installed_iff)
next
  case (failed sp' w1 evs1 w2 evs2 evs3 e)
  then have no: "\<not> (\<exists>w' evs. check_installed d opts sp w = (True, w', evs))" by auto
  have "Println k l' bn AlreadyInstalled \<notin> set evs3" for k l' bn
    using providers_loop_println [OF failed(4), of k l' bn AlreadyInstalled] by auto
  then have "\<not> already_installed_line evs (i + 1)"
    using failed(6) check_installed_no_println [OF failed(2)] check_cached_no_println [OF failed(3)]
    by (auto simp: already_installed_line_iff)
  with no show ?thesis by (simp add: check_installed_iff)
next
  case (fetched sp' w1 evs1 w2 evs2 evs3 x)
  then have no: "\<not> (\<exists>w' evs. check_installed d opts sp w = (True, w', evs))" by auto
  have "Println k l' bn AlreadyInstalled \<notin> set evs3" for k l' bn
    using providers_loop_println [OF fetched(4), of k l' bn AlreadyInstalled] by auto
  then have "\<not> already_installed_line evs (i + 1)"
    using fetched(7) check_installed_no_println [OF fetched(2)]
      check_cached_no_println [OF fetched(3)]
    by (auto simp: already_installed_line_iff)
  with no show ?thesis by (simp add: check_installed_iff)
qed

text \<open>The iteration for the \<open>k\<close>-th name of a loop that ended without error: it
  starts in the world the loop over the first \<open>k\<close> names ends in, and the status line
  \<open>k + 1\<close> of the whole run is its own.\<close>

lemma specs_loop_at:
  assumes loop: "specs_loop URL d c fileSpecs opts providers l 0 names res0 w = (Inr res, w', evs)"
    and k: "k < length names"
  shows "\<exists>resk wk evsk sp r1 w1 evs1.
     specs_loop URL d c fileSpecs opts providers l 0 (take k names) res0 w = (Inr resk, wk, evsk) \<and>
     index_ptr fileSpecs (names ! k) = Some sp \<and>
     download_one URL d c opts providers l k (Some sp) resk wk = (Inr r1, w1, evs1) \<and>
     (already_installed_line evs (k + 1) \<longleftrightarrow> already_installed_line evs1 (k + 1))"
proof -
  have split: "names = take k names @ names ! k # drop (Suc k) names"
    using k by (rule id_take_nth_drop)
  obtain rk wk evsk where before:
    "specs_loop URL d c fileSpecs opts providers l 0 (take k names) res0 w = (rk, wk, evsk)"
    by (metis prod_cases3)
  have len: "length (take k names) = k" using k by simp
  from loop have whole: "specs_loop URL d c fileSpecs opts providers l 0
      (take k names @ names ! k # drop (Suc k) names) res0 w = (Inr res, w', evs)"
    using split by simp
  from whole before obtain resk where rk: "rk = Inr resk"
    by (cases rk) (auto simp: specs_loop_append)
  obtain r1' w1 evs1 where one:
    "download_one URL d c opts providers l k (index_ptr fileSpecs (names ! k)) resk wk
       = (r1', w1, evs1)"
    by (metis prod_cases3)
  from whole before rk one len obtain r1 where r1: "r1' = Inr r1"
    by (cases r1') (auto simp: specs_loop_append)
  obtain r2 w2 evs2 where rest:
    "specs_loop URL d c fileSpecs opts providers l (k + 1) (drop (Suc k) names) r1 w1
       = (r2, w2, evs2)"
    by (metis prod_cases3)
  from whole before rk one r1 rest len have evs: "evs = evsk @ evs1 @ evs2"
    by (auto simp: specs_loop_append)
  from download_one_Inr [OF one [unfolded r1]] obtain sp where
    sp: "index_ptr fileSpecs (names ! k) = Some sp"
    by auto
  have early: "\<not> already_installed_line evsk (k + 1)"
    using specs_loop_println [OF before] len
    by (fastforce simp: already_installed_line_iff)
  have late: "\<not> already_installed_line evs2 (k + 1)"
    using specs_loop_println [OF rest]
    by (fastforce simp: already_installed_line_iff)
  have "already_installed_line evs (k + 1) \<longleftrightarrow> already_installed_line evs1 (k + 1)"
    using early late by (simp add: evs already_installed_line_append)
  with before rk one r1 sp show ?thesis by auto
qed

lemma Download_line_reported:
  assumes run: "Download URL (Some d) (Some c) fileSpecs opts w = (Inr res, w', evs)"
    and k: "k < length (sorted_fnames fileSpecs)"
  shows "already_installed_line evs (k + 1) \<longleftrightarrow> reported_installed URL d c fileSpecs opts w k"
proof -
  from run have loop: "specs_loop URL d c fileSpecs opts (effective_providers opts d)
       (length (sorted_fnames fileSpecs)) 0 (sorted_fnames fileSpecs)
       \<lparr>PackagesToBeInstalled = []\<rparr> w = (Inr res, w', evs)"
    by (rule Download_specs_loop) simp
  from specs_loop_at [OF loop k] obtain resk wk evsk sp r1 w1 evs1 where
    before: "specs_loop URL d c fileSpecs opts (effective_providers opts d)
       (length (sorted_fnames fileSpecs)) 0 (take k (sorted_fnames fileSpecs))
       \<lparr>PackagesToBeInstalled = []\<rparr> w = (Inr resk, wk, evsk)"
    and sp: "index_ptr fileSpecs (sorted_fnames fileSpecs ! k) = Some sp"
    and one: "download_one URL d c opts (effective_providers opts d)
       (length (sorted_fnames fileSpecs)) k (Some sp) resk wk = (Inr r1, w1, evs1)"
    and line: "already_installed_line evs (k + 1) \<longleftrightarrow> already_installed_line evs1 (k + 1)"
    by blast
  have answer: "(\<exists>w2. IsPackageVersionInstalled d sp wk = ((True, None), w2)) \<longleftrightarrow>
      fst (IsPackageVersionInstalled d sp wk) = (True, None)"
    by (cases "IsPackageVersionInstalled d sp wk") auto
  show ?thesis
    unfolding line download_one_line_iff [OF one] answer
    by (simp add: reported_installed_def before sp)
qed

lemma nths_cong_below:
  assumes "\<And>k. k < length xs \<Longrightarrow> k \<in> A \<longleftrightarrow> k \<in> B"
  shows "nths xs A = nths xs B"
proof -
  have "snd p \<in> A \<longleftrightarrow> snd p \<in> B" if "p \<in> set (zip xs [0..<length xs])" for p
  proof -
    obtain x k where p: "p = (x, k)" by (cases p)
    with that have "k \<in> set [0..<length xs]" by (auto dest: set_zip_rightD)
    then show ?thesis using assms p by simp
  qed
  then have "filter (\<lambda>p. snd p \<in> A) (zip xs [0..<length xs])
      = filter (\<lambda>p. snd p \<in> B) (zip xs [0..<length xs])"
    by (intro filter_cong refl)
  then show ?thesis by (simp add: nths_def)
qed

text \<open>The definitions a run on concrete values unfolds.\<close>

lemmas run_defs =
  Download_def effective_providers_def sorted_fnames_def keys_of_def index_ptr_def
  download_one_def check_installed_def check_cached_def
  debian_Distro_def debian_New_def debian_IsPackageVersionInstalled_def lookup_opt_map_def
  none_New_def example_cache_def example_URL_def example_deb_def
  example_a_def example_b_def example_batch_def example_installed_def

section \<open>An empty provider list\<close>




section \<open>A file spec without package identity\<close>

text \<open>
  Claim C9. \<^verbatim>\<open>IsPackageVersionInstalled\<close> of the debian driver, called on a file
  spec whose \<^verbatim>\<open>Dpkg\<close> is nil, returns the error "dpkg information not available"
  (the boolean beside it is false, but the error is set), and leaves the driver as it
  was; the alpine driver does the same for a nil \<^verbatim>\<open>APK\<close>.
\<close>

theorem IsPackageVersionInstalled_requires_identity:
  "(Dpkg sp = None \<longrightarrow>
      debian_IsPackageVersionInstalled InstalledD d sp
        = ((False, Some (ErrNoDpkgInfo (Name sp))), d)) \<and>
   (APK sp = None \<longrightarrow>
      alpine_IsPackageVersionInstalled InstalledA a sp
        = ((False, Some (ErrNoApkInfo (Name sp))), a))"
  by (simp add: debian_IsPackageVersionInstalled_def alpine_IsPackageVersionInstalled_def)

theorem IsPackageVersionInstalled_requires_identity_witness:
  "debian_IsPackageVersionInstalled (Some [], None) debian_New
     \<lparr>Name = ''x'', Basename = ''x'', SHA256 = ''s'', Dpkg = None, APK = None\<rparr>
     = ((False, Some (ErrNoDpkgInfo ''x'')), debian_New) \<and>
   alpine_IsPackageVersionInstalled (Some [], None) alpine_New
     \<lparr>Name = ''x'', Basename = ''x'', SHA256 = ''s'', Dpkg = None, APK = None\<rparr>
     = ((False, Some (ErrNoApkInfo ''x'')), alpine_New)"
  using IsPackageVersionInstalled_requires_identity
    [of "\<lparr>Name = ''x'', Basename = ''x'', SHA256 = ''s'', Dpkg = None, APK = None\<rparr>"
        "(Some [], None)" debian_New "(Some [], None)" alpine_New]
  by simp

section \<open>The result list\<close>

text \<open>
  Claim C1, as the spec states it: after a call to \<^verbatim>\<open>Download\<close> that returns without
  error, \<^verbatim>\<open>PackagesToBeInstalled\<close> has an entry for every requested file spec, also
  for one that was already installed. The code ends the iteration of an installed
  package with \<^verbatim>\<open>continue\<close> before anything is appended (lines 67 to 70): the list
  is what remains to be installed. Here one package is requested, it is installed,
  and the call succeeds with an empty list.
\<close>

theorem Download_omits_installed_counterexample:
  "Download example_URL (Some (debian_Distro example_installed)) (Some (example_cache [''p/a'']))
     [(''a.deb'', Some example_a)] \<lparr>Providers = [''p/''], SkipInstalled = True\<rparr> (debian_New, [])
   = (Inr \<lparr>PackagesToBeInstalled = []\<rparr>,
      (debian_New\<lparr>installed := fst example_installed\<rparr>, []),
      [CallIsPackageVersionInstalled example_a, Println 1 1 ''a'' AlreadyInstalled])"
  by (simp add: run_defs)

text \<open>
  Claim C1, amended: after a call to \<^verbatim>\<open>Download\<close> that returns without error, the
  driver and the cache were not nil and \<^verbatim>\<open>PackagesToBeInstalled\<close> holds, in ascending
  order of the file names, the file spec of every requested name except those the
  driver reported installed (with \<^verbatim>\<open>SkipInstalled\<close> set, \<^verbatim>\<open>IsPackageVersionInstalled\<close>
  answered true without error when the turn of the name came). The names left out
  are exactly those whose status line says "Already installed". With
  \<^verbatim>\<open>SkipInstalled\<close> off the list holds every requested file spec.
\<close>

theorem Download_result_all_but_installed:
  assumes "Download URL d cache fileSpecs opts w = (Inr res, w', evs)"
  shows "\<exists>d' c. d = Some d' \<and> cache = Some c \<and>
           map Some (PackagesToBeInstalled res) =
             map (index_ptr fileSpecs)
               (nths (sorted_fnames fileSpecs)
                  {k. \<not> reported_installed URL d' c fileSpecs opts w k}) \<and>
           (\<forall>k < length (sorted_fnames fileSpecs).
              already_installed_line evs (k + 1) \<longleftrightarrow>
              reported_installed URL d' c fileSpecs opts w k) \<and>
           (\<not> SkipInstalled opts \<longrightarrow>
              map Some (PackagesToBeInstalled res) =
                map (index_ptr fileSpecs) (sorted_fnames fileSpecs))"
proof -
  from assms obtain d' c where dc: "d = Some d'" "cache = Some c"
    by (rule Download_specs_loop)
  note run = assms [unfolded dc]
  have lines: "already_installed_line evs (k + 1) \<longleftrightarrow>
      reported_installed URL d' c fileSpecs opts w k"
    if "k < length (sorted_fnames fileSpecs)" for k
    using Download_line_reported [OF run that] .
  then have lines': "already_installed_line evs (Suc k) \<longleftrightarrow>
      reported_installed URL d' c fileSpecs opts w k"
    if "k < length (sorted_fnames fileSpecs)" for k
    using that by simp
  have "nths (sorted_fnames fileSpecs) {k. \<not> already_installed_line evs (k + 1)}
      = nths (sorted_fnames fileSpecs) {k. \<not> reported_installed URL d' c fileSpecs opts w k}"
    by (rule nths_cong_below) (simp add: lines')
  with Download_result_nths [OF assms]
  have result: "map Some (PackagesToBeInstalled res) =
             map (index_ptr fileSpecs)
               (nths (sorted_fnames fileSpecs)
                  {k. \<not> reported_installed URL d' c fileSpecs opts w k})"
    by simp
  have all: "map Some (PackagesToBeInstalled res) =
      map (index_ptr fileSpecs) (sorted_fnames fileSpecs)" if "\<not> SkipInstalled opts"
    using Download_result_nths [OF assms] Download_no_skip_no_line [OF assms that]
    by (simp add: nths_all)
  from dc result lines all show ?thesis by blast
qed

theorem Download_result_all_but_installed_witness:
  "Download example_URL (Some (debian_Distro example_installed)) (Some (example_cache [''p/b'']))
     example_batch \<lparr>Providers = [''p/''], SkipInstalled = True\<rparr> (debian_New, [])
   = (Inr \<lparr>PackagesToBeInstalled = [example_b]\<rparr>,
      (debian_New\<lparr>installed := fst example_installed\<rparr>, [''s2'']),
      [CallIsPackageVersionInstalled example_a, Println 1 2 ''a'' AlreadyInstalled,
       CallIsPackageVersionInstalled example_b, CallCached ''s2'',
       Println 2 2 ''b'' (DownloadingFrom ''p/b''), CallEnsure ''p/b'' ''s2'']) \<and>
   reported_installed example_URL (debian_Distro example_installed) (example_cache [''p/b''])
     example_batch \<lparr>Providers = [''p/''], SkipInstalled = True\<rparr> (debian_New, []) 0 \<and>
   \<not> reported_installed example_URL (debian_Distro example_installed) (example_cache [''p/b''])
     example_batch \<lparr>Providers = [''p/''], SkipInstalled = True\<rparr> (debian_New, []) 1 \<and>
   map Some [example_b] =
     map (index_ptr example_batch)
       (nths (sorted_fnames example_batch)
          {k. \<not> reported_installed example_URL (debian_Distro example_installed)
                  (example_cache [''p/b'']) example_batch
                  \<lparr>Providers = [''p/''], SkipInstalled = True\<rparr> (debian_New, []) k}) \<and>
   already_installed_line
     [CallIsPackageVersionInstalled example_a, Println 1 2 ''a'' AlreadyInstalled,
      CallIsPackageVersionInstalled example_b, CallCached ''s2'',
      Println 2 2 ''b'' (DownloadingFrom ''p/b''), CallEnsure ''p/b'' ''s2''] (0 + 1) \<and>
   \<not> SkipInstalled \<lparr>Providers = [''p/''], SkipInstalled = False\<rparr> \<and>
   Download example_URL (Some none_New) (Some (example_cache [''p/a'', ''p/b'']))
     example_batch \<lparr>Providers = [''p/''], SkipInstalled = False\<rparr> ((), [])
   = (Inr \<lparr>PackagesToBeInstalled = [example_a, example_b]\<rparr>, ((), [''s1'', ''s2'']),
      [CallCached ''s1'', Println 1 2 ''a'' (DownloadingFrom ''p/a''), CallEnsure ''p/a'' ''s1'',
       CallCached ''s2'', Println 2 2 ''b'' (DownloadingFrom ''p/b''), CallEnsure ''p/b'' ''s2'']) \<and>
   map Some [example_a, example_b] = map (index_ptr example_batch) (sorted_fnames example_batch)"
proof -
  let ?d = "debian_Distro example_installed :: (debian \<times> string list) Distro"
  let ?c = "example_cache [''p/b''] :: (debian \<times> string list) Cache"
  let ?opts = "\<lparr>Providers = [''p/''], SkipInstalled = True\<rparr>"
  let ?evs = "[CallIsPackageVersionInstalled example_a, Println 1 2 ''a'' AlreadyInstalled,
       CallIsPackageVersionInstalled example_b, CallCached ''s2'',
       Println 2 2 ''b'' (DownloadingFrom ''p/b''), CallEnsure ''p/b'' ''s2'']"
  have run1: "Download example_URL (Some ?d) (Some ?c) example_batch ?opts (debian_New, [])
     = (Inr \<lparr>PackagesToBeInstalled = [example_b]\<rparr>,
        (debian_New\<lparr>installed := fst example_installed\<rparr>, [''s2'']), ?evs)"
    by (simp add: run_defs)
  have run2: "Download example_URL (Some none_New) (Some (example_cache [''p/a'', ''p/b'']))
       example_batch \<lparr>Providers = [''p/''], SkipInstalled = False\<rparr> ((), [])
     = (Inr \<lparr>PackagesToBeInstalled = [example_a, example_b]\<rparr>, ((), [''s1'', ''s2'']),
        [CallCached ''s1'', Println 1 2 ''a'' (DownloadingFrom ''p/a''), CallEnsure ''p/a'' ''s1'',
         CallCached ''s2'', Println 2 2 ''b'' (DownloadingFrom ''p/b''), CallEnsure ''p/b'' ''s2''])"
    by (simp add: run_defs)
  have reported_a: "reported_installed example_URL ?d ?c example_batch ?opts (debian_New, []) 0"
    by (simp add: reported_installed_def run_defs)
  have reported_b: "\<not> reported_installed example_URL ?d ?c example_batch ?opts (debian_New, []) 1"
    by (simp add: reported_installed_def run_defs)
  from Download_result_all_but_installed [OF run1]
  have inst: "map Some (PackagesToBeInstalled \<lparr>PackagesToBeInstalled = [example_b]\<rparr>) =
             map (index_ptr example_batch)
               (nths (sorted_fnames example_batch)
                  {k. \<not> reported_installed example_URL ?d ?c example_batch ?opts
                          (debian_New, []) k}) \<and>
           (\<forall>k < length (sorted_fnames example_batch).
              already_installed_line ?evs (k + 1) \<longleftrightarrow>
              reported_installed example_URL ?d ?c example_batch ?opts (debian_New, []) k)"
    by blast
  from inst have all_but_a: "map Some [example_b] =
     map (index_ptr example_batch)
       (nths (sorted_fnames example_batch)
          {k. \<not> reported_installed example_URL ?d ?c example_batch ?opts (debian_New, []) k})"
    by simp
  have first: "0 < length (sorted_fnames example_batch)"
    by (simp add: run_defs)
  from inst first reported_a have line: "already_installed_line ?evs (0 + 1)"
    by blast
  have no_skip: "\<not> SkipInstalled \<lparr>Providers = [''p/''], SkipInstalled = False\<rparr>"
    by simp
  from Download_result_all_but_installed [OF run2] no_skip
  have "map Some (PackagesToBeInstalled \<lparr>PackagesToBeInstalled = [example_a, example_b]\<rparr>) =
      map (index_ptr example_batch) (sorted_fnames example_batch)"
    by blast
  then have all: "map Some [example_a, example_b] =
      map (index_ptr example_batch) (sorted_fnames example_batch)"
    by simp
  show ?thesis
    by (intro conjI; (fact run1 | fact reported_a | fact reported_b | fact all_but_a | fact line
          | fact no_skip | fact run2 | fact all))
qed

section \<open>The order of processing\<close>

text \<open>
  Claim C7. The names \<^verbatim>\<open>Download\<close> iterates over are the keys of the map in
  ascending lexicographic order, each once. Two maps with the same bindings give the
  same run, whatever order \<^verbatim>\<open>range\<close> yields the keys in. In the events of a run the
  numbers of the status lines never decrease, line \<open>k\<close> of \<open>l\<close> is about the file
  spec of the \<open>k\<close>-th smallest name, and the result list of a successful run is a
  sublist of the file specs taken in that order.
\<close>

theorem Download_processing_order:
  "sorted (sorted_fnames fileSpecs) \<and> distinct (sorted_fnames fileSpecs) \<and>
   set (sorted_fnames fileSpecs) = dom (map_of fileSpecs) \<and>
   (map_of fileSpecs' = map_of fileSpecs \<longrightarrow>
      Download URL d cache fileSpecs' opts w = Download URL d cache fileSpecs opts w) \<and>
   (Download URL d cache fileSpecs opts w = (r, w', evs) \<longrightarrow>
      sorted (line_numbers evs) \<and>
      (\<forall>k l bn st. Println k l bn st \<in> set evs \<longrightarrow>
         0 < k \<and> k \<le> length (sorted_fnames fileSpecs) \<and> l = length (sorted_fnames fileSpecs) \<and>
         (\<exists>sp. index_ptr fileSpecs (sorted_fnames fileSpecs ! (k - 1)) = Some sp \<and>
               bn = Basename sp)) \<and>
      (\<forall>res. r = Inr res \<longrightarrow>
         (\<exists>A. map Some (PackagesToBeInstalled res) =
               map (index_ptr fileSpecs) (nths (sorted_fnames fileSpecs) A))))"
proof (intro conjI impI allI)
  show "sorted (sorted_fnames fileSpecs)" "distinct (sorted_fnames fileSpecs)"
    "set (sorted_fnames fileSpecs) = dom (map_of fileSpecs)"
    using sorted_fnames_props [of fileSpecs] by simp_all
next
  assume "map_of fileSpecs' = map_of fileSpecs"
  then show "Download URL d cache fileSpecs' opts w = Download URL d cache fileSpecs opts w"
    by (rule Download_cong)
next
  assume run: "Download URL d cache fileSpecs opts w = (r, w', evs)"
  then show "sorted (line_numbers evs)"
    by (cases rule: Download_run) (auto dest: specs_loop_line_numbers)
next
  fix k l bn st
  assume run: "Download URL d cache fileSpecs opts w = (r, w', evs)"
    and line: "Println k l bn st \<in> set evs"
  from run have "0 < k \<and> k \<le> length (sorted_fnames fileSpecs) \<and>
      l = length (sorted_fnames fileSpecs) \<and>
      (\<exists>sp. index_ptr fileSpecs (sorted_fnames fileSpecs ! (k - 1)) = Some sp \<and> bn = Basename sp)"
  proof (cases rule: Download_run)
    case rejected
    with line show ?thesis by simp
  next
    case (loop d' c)
    from specs_loop_println [OF loop(3) line] show ?thesis by simp
  qed
  then show "0 < k" "k \<le> length (sorted_fnames fileSpecs)" "l = length (sorted_fnames fileSpecs)"
    "\<exists>sp. index_ptr fileSpecs (sorted_fnames fileSpecs ! (k - 1)) = Some sp \<and> bn = Basename sp"
    by simp_all
next
  fix res
  assume "Download URL d cache fileSpecs opts w = (r, w', evs)" and "r = Inr res"
  then have "Download URL d cache fileSpecs opts w = (Inr res, w', evs)" by simp
  from Download_result_nths [OF this]
  show "\<exists>A. map Some (PackagesToBeInstalled res) =
            map (index_ptr fileSpecs) (nths (sorted_fnames fileSpecs) A)"
    by blast
qed

theorem Download_processing_order_witness:
  "sorted_fnames example_batch = [''a.deb'', ''b.deb''] \<and>
   sorted (sorted_fnames example_batch) \<and>
   map_of [(''a.deb'', Some example_a), (''b.deb'', Some example_b)] = map_of example_batch \<and>
   Download example_URL (Some none_New) (Some (example_cache [''p/a'', ''p/b'']))
     [(''a.deb'', Some example_a), (''b.deb'', Some example_b)]
     \<lparr>Providers = [''p/''], SkipInstalled = False\<rparr> ((), [])
   = Download example_URL (Some none_New) (Some (example_cache [''p/a'', ''p/b'']))
       example_batch \<lparr>Providers = [''p/''], SkipInstalled = False\<rparr> ((), []) \<and>
   Download example_URL (Some none_New) (Some (example_cache [''p/a'', ''p/b'']))
     example_batch \<lparr>Providers = [''p/''], SkipInstalled = False\<rparr> ((), [])
   = (Inr \<lparr>PackagesToBeInstalled = [example_a, example_b]\<rparr>, ((), [''s1'', ''s2'']),
      [CallCached ''s1'', Println 1 2 ''a'' (DownloadingFrom ''p/a''), CallEnsure ''p/a'' ''s1'',
       CallCached ''s2'', Println 2 2 ''b'' (DownloadingFrom ''p/b''), CallEnsure ''p/b'' ''s2'']) \<and>
   sorted (line_numbers
      [CallCached ''s1'', Println 1 2 ''a'' (DownloadingFrom ''p/a''), CallEnsure ''p/a'' ''s1'',
       CallCached ''s2'', Println 2 2 ''b'' (DownloadingFrom ''p/b''), CallEnsure ''p/b'' ''s2''])"
proof -
  let ?d = "Some (none_New :: (unit \<times> string list) Distro)"
  let ?c = "Some (example_cache [''p/a'', ''p/b''] :: (unit \<times> string list) Cache)"
  let ?opts = "\<lparr>Providers = [''p/''], SkipInstalled = False\<rparr>"
  let ?evs = "[CallCached ''s1'', Println 1 2 ''a'' (DownloadingFrom ''p/a''),
       CallEnsure ''p/a'' ''s1'',
       CallCached ''s2'', Println 2 2 ''b'' (DownloadingFrom ''p/b''), CallEnsure ''p/b'' ''s2'']"
  note order = Download_processing_order
    [of example_batch "[(''a.deb'', Some example_a), (''b.deb'', Some example_b)]"
        example_URL ?d ?c ?opts "((), [])"
        "Inr \<lparr>PackagesToBeInstalled = [example_a, example_b]\<rparr>" "((), [''s1'', ''s2''])" ?evs]
  have names: "sorted_fnames example_batch = [''a.deb'', ''b.deb'']"
    by (simp add: run_defs)
  have sorted_names: "sorted (sorted_fnames example_batch)"
    using order by (rule conjunct1)
  have same_map: "map_of [(''a.deb'', Some example_a), (''b.deb'', Some example_b)]
      = map_of example_batch"
    by (auto simp: example_batch_def fun_eq_iff)
  have same_run: "Download example_URL ?d ?c
       [(''a.deb'', Some example_a), (''b.deb'', Some example_b)] ?opts ((), [])
     = Download example_URL ?d ?c example_batch ?opts ((), [])"
    using order [THEN conjunct2, THEN conjunct2, THEN conjunct2, THEN conjunct1] same_map
    by (rule mp)
  have run: "Download example_URL ?d ?c example_batch ?opts ((), [])
     = (Inr \<lparr>PackagesToBeInstalled = [example_a, example_b]\<rparr>, ((), [''s1'', ''s2'']), ?evs)"
    by (simp add: run_defs)
  have lines: "sorted (line_numbers ?evs)"
    using order [THEN conjunct2, THEN conjunct2, THEN conjunct2, THEN conjunct2] run
    by blast
  show ?thesis
    by (intro conjI; (fact names | fact sorted_names | fact same_map | fact same_run
          | fact run | fact lines))
qed

section \<open>Skipping an installed package\<close>

text \<open>
  Claim C6. With \<^verbatim>\<open>SkipInstalled\<close> set, when the driver reports the package of a
  file spec as installed (true, without error), the iteration for that file spec
  consists of the call to the driver and the status line "Already installed": there
  is no call to \<^verbatim>\<open>Cached\<close> or \<^verbatim>\<open>Ensure\<close>, the result list is unchanged, and the
  world the driver returned is handed on as it is. In a run of \<^verbatim>\<open>Download\<close> that
  reaches the name of such a file spec, these two events are all that lies between
  the events of the names before it and those of the names after it.
\<close>

theorem skip_installed_no_cache_access:
  assumes "SkipInstalled opts"
    and "IsPackageVersionInstalled d sp w1 = ((True, None), w2)"
  shows "download_one URL d c opts providers l i (Some sp) res w1 =
           (Inr res, w2,
            [CallIsPackageVersionInstalled sp, Println (i + 1) l (Basename sp) AlreadyInstalled]) \<and>
         (effective_providers opts d \<noteq> [] \<and>
          sorted_fnames fileSpecs = names1 @ fname # names2 \<and>
          specs_loop URL d c fileSpecs opts (effective_providers opts d)
            (length (sorted_fnames fileSpecs)) 0 names1 \<lparr>PackagesToBeInstalled = []\<rparr> w0
            = (Inr res1, w1, evs1) \<and>
          index_ptr fileSpecs fname = Some sp \<longrightarrow>
          Download URL (Some d) (Some c) fileSpecs opts w0 =
            (case specs_loop URL d c fileSpecs opts (effective_providers opts d)
                    (length (sorted_fnames fileSpecs)) (length names1 + 1) names2 res1 w2 of
               (r, w3, evs3) \<Rightarrow>
                 (r, w3,
                  evs1 @
                  [CallIsPackageVersionInstalled sp,
                   Println (length names1 + 1) (length (sorted_fnames fileSpecs)) (Basename sp)
                     AlreadyInstalled] @
                  evs3)))"
proof -
  have one: "download_one URL d c opts providers l i (Some sp) res w1 =
           (Inr res, w2,
            [CallIsPackageVersionInstalled sp, Println (i + 1) l (Basename sp) AlreadyInstalled])"
    for providers l i res
    using assms by (simp add: download_one_def check_installed_def)
  show ?thesis
    by (auto simp: one Download_at)
qed

theorem skip_installed_no_cache_access_witness:
  "SkipInstalled \<lparr>Providers = [''p/''], SkipInstalled = True\<rparr> \<and>
   IsPackageVersionInstalled (debian_Distro example_installed) example_a
       (debian_New, []::string list)
     = ((True, None), (debian_New\<lparr>installed := fst example_installed\<rparr>, [])) \<and>
   Download example_URL (Some (debian_Distro example_installed)) (Some (example_cache [''p/b'']))
     example_batch \<lparr>Providers = [''p/''], SkipInstalled = True\<rparr> (debian_New, [])
   = (Inr \<lparr>PackagesToBeInstalled = [example_b]\<rparr>,
      (debian_New\<lparr>installed := fst example_installed\<rparr>, [''s2'']),
      [CallIsPackageVersionInstalled example_a, Println 1 2 ''a'' AlreadyInstalled,
       CallIsPackageVersionInstalled example_b, CallCached ''s2'',
       Println 2 2 ''b'' (DownloadingFrom ''p/b''), CallEnsure ''p/b'' ''s2''])"
proof -
  have skip: "SkipInstalled \<lparr>Providers = [''p/''], SkipInstalled = True\<rparr>"
    by simp
  have reported: "IsPackageVersionInstalled (debian_Distro example_installed) example_a
       (debian_New, []::string list)
     = ((True, None), (debian_New\<lparr>installed := fst example_installed\<rparr>, []))"
    by (simp add: run_defs)
  have reached: "effective_providers \<lparr>Providers = [''p/''], SkipInstalled = True\<rparr>
        (debian_Distro example_installed :: (debian \<times> string list) Distro) \<noteq> [] \<and>
     sorted_fnames example_batch = [] @ ''a.deb'' # [''b.deb''] \<and>
     specs_loop example_URL (debian_Distro example_installed) (example_cache [''p/b''])
       example_batch \<lparr>Providers = [''p/''], SkipInstalled = True\<rparr>
       (effective_providers \<lparr>Providers = [''p/''], SkipInstalled = True\<rparr>
          (debian_Distro example_installed))
       (length (sorted_fnames example_batch)) 0 [] \<lparr>PackagesToBeInstalled = []\<rparr>
       (debian_New, [])
     = (Inr \<lparr>PackagesToBeInstalled = []\<rparr>, (debian_New, []), []) \<and>
     index_ptr example_batch ''a.deb'' = Some example_a"
    by (simp add: run_defs)
  have "Download example_URL (Some (debian_Distro example_installed))
       (Some (example_cache [''p/b'']))
       example_batch \<lparr>Providers = [''p/''], SkipInstalled = True\<rparr> (debian_New, [])
     = (Inr \<lparr>PackagesToBeInstalled = [example_b]\<rparr>,
        (debian_New\<lparr>installed := fst example_installed\<rparr>, [''s2'']),
        [CallIsPackageVersionInstalled example_a, Println 1 2 ''a'' AlreadyInstalled,
         CallIsPackageVersionInstalled example_b, CallCached ''s2'',
         Println 2 2 ''b'' (DownloadingFrom ''p/b''), CallEnsure ''p/b'' ''s2''])"
    using skip_installed_no_cache_access [OF skip reported, THEN conjunct2, rule_format, OF reached]
    by (simp add: run_defs)
  with skip reported show ?thesis by (intro conjI)
qed

section \<open>A provider that fails\<close>

text \<open>
  Claim C3. Let a run of \<^verbatim>\<open>Download\<close> reach a file spec that is neither installed
  nor cached, and in its provider loop the provider \<open>p\<close>, every provider before
  \<open>p\<close> having failed to fetch. If the URL for \<open>p\<close> resolves and the fetch from it
  fails, then: when providers remain after \<open>p\<close>, the loop logs a warning and goes on
  with them, starting with the next one; when \<open>p\<close> is the last provider,
  \<^verbatim>\<open>Download\<close> returns the error of that fetch, with no result, and the events end
  with that fetch: nothing is done for the names that follow.
\<close>

theorem provider_fallback:
  assumes providers: "effective_providers opts d = ps1 @ p # ps2"
    and names: "sorted_fnames fileSpecs = names1 @ fname # names2"
    and before: "specs_loop URL d c fileSpecs opts (effective_providers opts d)
            (length (sorted_fnames fileSpecs)) 0 names1 \<lparr>PackagesToBeInstalled = []\<rparr> w0
            = (Inr res1, w1, evs1)"
    and spec: "index_ptr fileSpecs fname = Some sp"
    and not_installed: "check_installed d opts sp w1 = (False, w2, evs2)"
    and not_cached: "check_cached c sp w2 = (False, w3, evs3)"
    and reached: "providers_loop URL c (length names1) (length (sorted_fnames fileSpecs)) sp
            (length (ps1 @ p # ps2)) 0 ps1 w3 = (Exhausted, w4, evs4)"
    and resolved: "URL sp p = Inr u"
    and fetch_failed: "Ensure c u (SHA256 sp) w4 = (Some err, w5)"
  shows "(ps2 \<noteq> [] \<longrightarrow>
            providers_loop URL c (length names1) (length (sorted_fnames fileSpecs)) sp
              (length (ps1 @ p # ps2)) 0 (ps1 @ p # ps2) w3 =
            (case providers_loop URL c (length names1) (length (sorted_fnames fileSpecs)) sp
                    (length (ps1 @ p # ps2)) (length ps1 + 1) ps2 w5 of
               (r, w6, evs6) \<Rightarrow>
                 (r, w6,
                  evs4 @
                  [Println (length names1 + 1) (length (sorted_fnames fileSpecs)) (Basename sp)
                     (DownloadingFrom u),
                   CallEnsure u (SHA256 sp),
                   Warnf (FailedDownloadTryNext err (Basename sp) u)] @
                  evs6))) \<and>
         (ps2 = [] \<longrightarrow>
            Download URL (Some d) (Some c) fileSpecs opts w0 =
              (Inl (ErrDownload (Basename sp) u err), w5,
               evs1 @ evs2 @ evs3 @ evs4 @
               [Println (length names1 + 1) (length (sorted_fnames fileSpecs)) (Basename sp)
                  (DownloadingFrom u),
                CallEnsure u (SHA256 sp)]))"
proof (intro conjI impI)
  assume "ps2 \<noteq> []"
  then show "providers_loop URL c (length names1) (length (sorted_fnames fileSpecs)) sp
              (length (ps1 @ p # ps2)) 0 (ps1 @ p # ps2) w3 =
            (case providers_loop URL c (length names1) (length (sorted_fnames fileSpecs)) sp
                    (length (ps1 @ p # ps2)) (length ps1 + 1) ps2 w5 of
               (r, w6, evs6) \<Rightarrow>
                 (r, w6,
                  evs4 @
                  [Println (length names1 + 1) (length (sorted_fnames fileSpecs)) (Basename sp)
                     (DownloadingFrom u),
                   CallEnsure u (SHA256 sp),
                   Warnf (FailedDownloadTryNext err (Basename sp) u)] @
                  evs6))"
    using reached resolved fetch_failed
    by (simp add: providers_loop_append split: prod.splits)
next
  assume last: "ps2 = []"
  have loop: "providers_loop URL c (length names1) (length (sorted_fnames fileSpecs)) sp
            (length (ps1 @ p # ps2)) 0 (ps1 @ p # ps2) w3 =
            (Return (ErrDownload (Basename sp) u err), w5,
             evs4 @
             [Println (length names1 + 1) (length (sorted_fnames fileSpecs)) (Basename sp)
                (DownloadingFrom u),
              CallEnsure u (SHA256 sp)])"
    using reached resolved fetch_failed last by (simp add: providers_loop_append)
  have "effective_providers opts d \<noteq> []" using providers by simp
  from Download_at [OF this names before]
  show "Download URL (Some d) (Some c) fileSpecs opts w0 =
              (Inl (ErrDownload (Basename sp) u err), w5,
               evs1 @ evs2 @ evs3 @ evs4 @
               [Println (length names1 + 1) (length (sorted_fnames fileSpecs)) (Basename sp)
                  (DownloadingFrom u),
                CallEnsure u (SHA256 sp)])"
    using spec not_installed not_cached loop
    by (simp add: download_one_def providers)
qed

theorem provider_fallback_witness:
  "providers_loop example_URL
     (example_cache [''p2/a''] :: (unit \<times> string list) Cache) 0 2 example_a 2 0
     [''p1/'', ''p2/''] ((), [])
   = (Break, ((), [''s1'']),
      [Println 1 2 ''a'' (DownloadingFrom ''p1/a''), CallEnsure ''p1/a'' ''s1'',
       Warnf (FailedDownloadTryNext (External ''fetch failed'') ''a'' ''p1/a''),
       Println 1 2 ''a'' (DownloadingFrom ''p2/a''), CallEnsure ''p2/a'' ''s1'']) \<and>
   Download example_URL (Some none_New) (Some (example_cache [''p2/a'']))
     example_batch \<lparr>Providers = [''p1/'', ''p2/''], SkipInstalled = False\<rparr> ((), [])
   = (Inl (ErrDownload ''b'' ''p2/b'' (External ''fetch failed'')), ((), [''s1'']),
      [CallCached ''s1'', Println 1 2 ''a'' (DownloadingFrom ''p1/a''),
       CallEnsure ''p1/a'' ''s1'',
       Warnf (FailedDownloadTryNext (External ''fetch failed'') ''a'' ''p1/a''),
       Println 1 2 ''a'' (DownloadingFrom ''p2/a''), CallEnsure ''p2/a'' ''s1'',
       CallCached ''s2'', Println 2 2 ''b'' (DownloadingFrom ''p1/b''),
       CallEnsure ''p1/b'' ''s2'',
       Warnf (FailedDownloadTryNext (External ''fetch failed'') ''b'' ''p1/b''),
       Println 2 2 ''b'' (DownloadingFrom ''p2/b''), CallEnsure ''p2/b'' ''s2''])"
proof -
  let ?opts = "\<lparr>Providers = [''p1/'', ''p2/''], SkipInstalled = False\<rparr>"
  let ?d = "none_New :: (unit \<times> string list) Distro"
  let ?c = "example_cache [''p2/a''] :: (unit \<times> string list) Cache"
  let ?w = "((), []::string list)"
  let ?w1 = "((), [''s1''])"
  let ?evs_a = "[CallCached ''s1'', Println 1 2 ''a'' (DownloadingFrom ''p1/a''),
       CallEnsure ''p1/a'' ''s1'',
       Warnf (FailedDownloadTryNext (External ''fetch failed'') ''a'' ''p1/a''),
       Println 1 2 ''a'' (DownloadingFrom ''p2/a''), CallEnsure ''p2/a'' ''s1'']"
  have providers_a: "effective_providers ?opts ?d = [] @ ''p1/'' # [''p2/'']"
    by (simp add: run_defs)
  have names_a: "sorted_fnames example_batch = [] @ ''a.deb'' # [''b.deb'']"
    by (simp add: run_defs)
  have before_a: "specs_loop example_URL ?d ?c example_batch ?opts (effective_providers ?opts ?d)
      (length (sorted_fnames example_batch)) 0 [] \<lparr>PackagesToBeInstalled = []\<rparr> ?w
      = (Inr \<lparr>PackagesToBeInstalled = []\<rparr>, ?w, [])"
    by simp
  have spec_a: "index_ptr example_batch ''a.deb'' = Some example_a"
    by (simp add: run_defs)
  have not_installed_a: "check_installed ?d ?opts example_a ?w = (False, ?w, [])"
    by (simp add: run_defs)
  have not_cached_a: "check_cached ?c example_a ?w = (False, ?w, [CallCached ''s1''])"
    by (simp add: run_defs)
  have reached_a: "providers_loop example_URL ?c (length ([]::string list))
      (length (sorted_fnames example_batch)) example_a
      (length ([] @ ''p1/'' # [''p2/''])) 0 [] ?w = (Exhausted, ?w, [])"
    by simp
  have resolved_a: "example_URL example_a ''p1/'' = Inr ''p1/a''"
    by (simp add: run_defs)
  have failed_a: "Ensure ?c ''p1/a'' (SHA256 example_a) ?w = (Some (External ''fetch failed''), ?w)"
    by (simp add: run_defs)
  have more: "[''p2/''] \<noteq> []" by simp
  have next_tried: "providers_loop example_URL ?c 0 2 example_a 2 0 [''p1/'', ''p2/''] ?w
   = (Break, ?w1,
      [Println 1 2 ''a'' (DownloadingFrom ''p1/a''), CallEnsure ''p1/a'' ''s1'',
       Warnf (FailedDownloadTryNext (External ''fetch failed'') ''a'' ''p1/a''),
       Println 1 2 ''a'' (DownloadingFrom ''p2/a''), CallEnsure ''p2/a'' ''s1''])"
    using provider_fallback [OF providers_a names_a before_a spec_a not_installed_a not_cached_a
        reached_a resolved_a failed_a, THEN conjunct1, rule_format, OF more]
    by (simp add: run_defs)
  have providers_b: "effective_providers ?opts ?d = [''p1/''] @ ''p2/'' # []"
    by (simp add: run_defs)
  have names_b: "sorted_fnames example_batch = [''a.deb''] @ ''b.deb'' # []"
    by (simp add: run_defs)
  have before_b: "specs_loop example_URL ?d ?c example_batch ?opts (effective_providers ?opts ?d)
      (length (sorted_fnames example_batch)) 0 [''a.deb''] \<lparr>PackagesToBeInstalled = []\<rparr> ?w
      = (Inr \<lparr>PackagesToBeInstalled = [example_a]\<rparr>, ?w1, ?evs_a)"
    by (simp add: run_defs)
  have spec_b: "index_ptr example_batch ''b.deb'' = Some example_b"
    by (simp add: run_defs)
  have not_installed_b: "check_installed ?d ?opts example_b ?w1 = (False, ?w1, [])"
    by (simp add: run_defs)
  have not_cached_b: "check_cached ?c example_b ?w1 = (False, ?w1, [CallCached ''s2''])"
    by (simp add: run_defs)
  have reached_b: "providers_loop example_URL ?c (length [''a.deb''])
      (length (sorted_fnames example_batch)) example_b
      (length ([''p1/''] @ ''p2/'' # [])) 0 [''p1/''] ?w1
      = (Exhausted, ?w1,
         [Println 2 2 ''b'' (DownloadingFrom ''p1/b''), CallEnsure ''p1/b'' ''s2'',
          Warnf (FailedDownloadTryNext (External ''fetch failed'') ''b'' ''p1/b'')])"
    by (simp add: run_defs)
  have resolved_b: "example_URL example_b ''p2/'' = Inr ''p2/b''"
    by (simp add: run_defs)
  have failed_b: "Ensure ?c ''p2/b'' (SHA256 example_b) ?w1
      = (Some (External ''fetch failed''), ?w1)"
    by (simp add: run_defs)
  have aborted: "Download example_URL (Some ?d) (Some ?c) example_batch ?opts ?w
   = (Inl (ErrDownload ''b'' ''p2/b'' (External ''fetch failed'')), ?w1,
      ?evs_a @
      [CallCached ''s2'', Println 2 2 ''b'' (DownloadingFrom ''p1/b''),
       CallEnsure ''p1/b'' ''s2'',
       Warnf (FailedDownloadTryNext (External ''fetch failed'') ''b'' ''p1/b''),
       Println 2 2 ''b'' (DownloadingFrom ''p2/b''), CallEnsure ''p2/b'' ''s2''])"
    using provider_fallback [OF providers_b names_b before_b spec_b not_installed_b not_cached_b
        reached_b resolved_b failed_b, THEN conjunct2, rule_format, OF refl]
    by (simp add: run_defs)
  from next_tried aborted show ?thesis by simp
qed

section \<open>A URL that does not resolve\<close>

text \<open>
  Claim C10. Let a run of \<^verbatim>\<open>Download\<close> reach a file spec that is neither installed
  nor cached, and in its provider loop the provider \<open>p\<close>, every provider before
  \<open>p\<close> having failed to fetch. If the URL for \<open>p\<close> does not resolve, \<^verbatim>\<open>Download\<close>
  returns the error "failed to determine the URL" at once: the events end with those
  of the providers before \<open>p\<close>, so no provider after \<open>p\<close> is tried and no later
  name is processed. (A fetch that fails goes on with the next provider instead, see
  the section before.)
\<close>

theorem URL_failure_aborts_batch:
  assumes providers: "effective_providers opts d = ps1 @ p # ps2"
    and names: "sorted_fnames fileSpecs = names1 @ fname # names2"
    and before: "specs_loop URL d c fileSpecs opts (effective_providers opts d)
            (length (sorted_fnames fileSpecs)) 0 names1 \<lparr>PackagesToBeInstalled = []\<rparr> w0
            = (Inr res1, w1, evs1)"
    and spec: "index_ptr fileSpecs fname = Some sp"
    and not_installed: "check_installed d opts sp w1 = (False, w2, evs2)"
    and not_cached: "check_cached c sp w2 = (False, w3, evs3)"
    and reached: "providers_loop URL c (length names1) (length (sorted_fnames fileSpecs)) sp
            (length (ps1 @ p # ps2)) 0 ps1 w3 = (Exhausted, w4, evs4)"
    and unresolved: "URL sp p = Inl e"
  shows "Download URL (Some d) (Some c) fileSpecs opts w0 =
           (Inl (ErrURL sp p), w4, evs1 @ evs2 @ evs3 @ evs4)"
proof -
  have loop: "providers_loop URL c (length names1) (length (sorted_fnames fileSpecs)) sp
            (length (ps1 @ p # ps2)) 0 (ps1 @ p # ps2) w3 = (Return (ErrURL sp p), w4, evs4)"
    using reached unresolved by (simp add: providers_loop_append)
  have "effective_providers opts d \<noteq> []" using providers by simp
  from Download_at [OF this names before] show ?thesis
    using spec not_installed not_cached loop
    by (simp add: download_one_def providers)
qed

theorem URL_failure_aborts_batch_witness:
  "example_URL example_a [] = Inl (External ''bad template'') \<and>
   Download example_URL (Some none_New) (Some (example_cache [''p3/a'', ''p3/b'']))
     example_batch \<lparr>Providers = [''p1/'', [], ''p3/''], SkipInstalled = False\<rparr> ((), [])
   = (Inl (ErrURL example_a []), ((), []),
      [CallCached ''s1'', Println 1 2 ''a'' (DownloadingFrom ''p1/a''),
       CallEnsure ''p1/a'' ''s1'',
       Warnf (FailedDownloadTryNext (External ''fetch failed'') ''a'' ''p1/a'')])"
proof -
  let ?opts = "\<lparr>Providers = [''p1/'', [], ''p3/''], SkipInstalled = False\<rparr>"
  let ?d = "none_New :: (unit \<times> string list) Distro"
  let ?c = "example_cache [''p3/a'', ''p3/b''] :: (unit \<times> string list) Cache"
  let ?w = "((), []::string list)"
  have providers: "effective_providers ?opts ?d = [''p1/''] @ [] # [''p3/'']"
    by (simp add: run_defs)
  have names: "sorted_fnames example_batch = [] @ ''a.deb'' # [''b.deb'']"
    by (simp add: run_defs)
  have before: "specs_loop example_URL ?d ?c example_batch ?opts (effective_providers ?opts ?d)
      (length (sorted_fnames example_batch)) 0 [] \<lparr>PackagesToBeInstalled = []\<rparr> ?w
      = (Inr \<lparr>PackagesToBeInstalled = []\<rparr>, ?w, [])"
    by simp
  have spec: "index_ptr example_batch ''a.deb'' = Some example_a"
    by (simp add: run_defs)
  have not_installed: "check_installed ?d ?opts example_a ?w = (False, ?w, [])"
    by (simp add: run_defs)
  have not_cached: "check_cached ?c example_a ?w = (False, ?w, [CallCached ''s1''])"
    by (simp add: run_defs)
  have reached: "providers_loop example_URL ?c (length ([]::string list))
      (length (sorted_fnames example_batch)) example_a
      (length ([''p1/''] @ [] # [''p3/''])) 0 [''p1/''] ?w
      = (Exhausted, ?w,
         [Println 1 2 ''a'' (DownloadingFrom ''p1/a''), CallEnsure ''p1/a'' ''s1'',
          Warnf (FailedDownloadTryNext (External ''fetch failed'') ''a'' ''p1/a'')])"
    by (simp add: run_defs)
  have unresolved: "example_URL example_a [] = Inl (External ''bad template'')"
    by (simp add: run_defs)
  from URL_failure_aborts_batch
    [OF providers names before spec not_installed not_cached reached unresolved]
    unresolved
  show ?thesis by simp
qed

section \<open>The entries the debian generator writes\<close>






section \<open>Dedupe\<close>





text \<open>The equivalence needs the digest to be non-empty: for the empty digest the
  writer also suppresses an entry whose file name the prior manifest lacks.\<close>

lemma hw_dedupe_empty_digest:
  "hw_dedupe [] hw_record [] ''pool/new.deb'' [] = (None, [])"
  by (simp add: hw_dedupe_def index_str_def)

section \<open>Two versions of one package\<close>

text \<open>
  Claim C2 says that of two index entries with the same package and architecture
  only the one with the higher version is in the manifest, in either order. When
  the lower version comes first the code writes both: the first entry is written
  before the second is read, and the comparison on line 130 only passes over an
  entry that is lower than the one seen before. The theorem evaluates
  \<^verbatim>\<open>generateHash\<close> on two such paragraphs, for any version library in which the
  first version parses, the second parses and the first is lower.
\<close>

theorem generateHash_emits_lower_version_seen_first:
  assumes "Unmarshal r = Inr [older, newer]"
    and "ParagraphPackage older = ParagraphPackage newer"
    and "index_str (Values older) ''Architecture'' = index_str (Values newer) ''Architecture''"
    and "Parse (index_str (Values older) ''Version'') = Inr v1"
    and "Parse (index_str (Values newer) ''Version'') = Inr v2"
    and "Compare v1 v2 < 0"
    and "index_str (Values older) ''Filename'' \<noteq> []"
    and "index_str (Values older) ''SHA256'' \<noteq> []"
    and "index_str (Values newer) ''Filename'' \<noteq> []"
    and "index_str (Values newer) ''SHA256'' \<noteq> []"
  shows "generateHash Unmarshal Parse Compare hw_record r [] =
           (None,
            [(index_str (Values older) ''SHA256'', index_str (Values older) ''Filename''),
             (index_str (Values newer) ''SHA256'', index_str (Values newer) ''Filename'')])"
  using assms by (simp add: generateHash_def passed_over_def hw_record_def Let_def)

theorem generateHash_emits_lower_version_seen_first_witness:
  "generateHash Inr example_Parse example_Compare hw_record
     [example_paragraph ''hello'' ''1.0'', example_paragraph ''hello'' ''2.0''] []
   = (None, [(''sha-of-hello-1.0'', ''pool/hello_1.0_amd64.deb''),
             (''sha-of-hello-2.0'', ''pool/hello_2.0_amd64.deb'')])"
  using generateHash_emits_lower_version_seen_first
    [of Inr "[example_paragraph ''hello'' ''1.0'', example_paragraph ''hello'' ''2.0'']"
        "example_paragraph ''hello'' ''1.0''" "example_paragraph ''hello'' ''2.0''"
        example_Parse "''1.0''" "''2.0''" example_Compare]
  by (simp add: index_str_def example_Parse_def example_Compare_def example_paragraph_def)

text \<open>In the other order the claim holds: the lower version, read second, is passed
  over.\<close>

lemma generateHash_drops_lower_version_seen_second:
  assumes "Unmarshal r = Inr [newer, older]"
    and "ParagraphPackage older = ParagraphPackage newer"
    and "index_str (Values older) ''Architecture'' = index_str (Values newer) ''Architecture''"
    and "Parse (index_str (Values older) ''Version'') = Inr v1"
    and "Parse (index_str (Values newer) ''Version'') = Inr v2"
    and "Compare v2 v1 > 0"
    and "index_str (Values newer) ''Filename'' \<noteq> []"
    and "index_str (Values newer) ''SHA256'' \<noteq> []"
  shows "generateHash Unmarshal Parse Compare hw_record r [] =
           (None,
            [(index_str (Values newer) ''SHA256'', index_str (Values newer) ''Filename'')])"
  using assms by (simp add: generateHash_def passed_over_def hw_record_def Let_def)

lemma generateHash_higher_version_first_example:
  "generateHash Inr example_Parse example_Compare hw_record
     [example_paragraph ''hello'' ''2.0'', example_paragraph ''hello'' ''1.0''] []
   = (None, [(''sha-of-hello-2.0'', ''pool/hello_2.0_amd64.deb'')])"
  using generateHash_drops_lower_version_seen_second
    [of Inr "[example_paragraph ''hello'' ''2.0'', example_paragraph ''hello'' ''1.0'']"
        "example_paragraph ''hello'' ''2.0''" "example_paragraph ''hello'' ''1.0''"
        example_Parse "''1.0''" "''2.0''" example_Compare]
  by (simp add: index_str_def example_Parse_def example_Compare_def example_paragraph_def)

section \<open>The default set of names\<close>

lemma len_opt_map_0: "len_opt_map m = 0 \<longleftrightarrow> keys_opt_map m = []"
  by (simp add: len_opt_map_def keys_opt_map_def len_map_def split: option.splits)

lemma keys_opt_map_set:
  "set (keys_opt_map m) = (case m of None \<Rightarrow> {} | Some kvs \<Rightarrow> dom (map_of kvs)) \<and>
   distinct (keys_opt_map m)"
  by (simp add: keys_opt_map_def keys_of_def dom_map_of_conv_image_fst split: option.splits)

text \<open>
  Claim C8. \<^verbatim>\<open>GenerateHash\<close> of the debian driver, called with no names while
  \<^verbatim>\<open>Installed()\<close> succeeds, fails with "no package is installed?" when the map of
  installed packages is empty; otherwise it runs \<^verbatim>\<open>apt-cache show\<close> on the sorted
  keys of that map, which are all the installed packages, and writes what
  \<^verbatim>\<open>generateHash\<close> makes of the output, exactly as if it had been called with those
  keys as names. The alpine driver first fails with "cache is required" without a
  cache; with one it fails in the same way on an empty map and otherwise runs
  \<^verbatim>\<open>apk fetch --simulate --url\<close> on the sorted keys and hands the output, the cache
  and the hash writer to \<^verbatim>\<open>generateHashWithURLReader\<close>.
\<close>

theorem GenerateHash_defaults_to_installed:
  "(FilterByName opts = [] \<and> InstalledD = (dpkgs, None) \<longrightarrow>
      debian_GenerateHash InstalledD Command Unmarshal Parse Compare hw opts w =
        (if len_opt_map dpkgs = 0 then (Some ErrNoPackageInstalled, w)
         else
           (case Command (''show'' # sort (keys_opt_map dpkgs)) of
              PipeFailed err \<Rightarrow> (Some err, w)
            | StartFailed err \<Rightarrow>
                (Some (ErrStart (''apt-cache'' # ''show'' # sort (keys_opt_map dpkgs)) err), w)
            | Started aptCacheR \<Rightarrow>
                (case generateHash Unmarshal Parse Compare hw aptCacheR w of
                   (Some err, w') \<Rightarrow>
                     (Some (ErrParseOutput
                              (''apt-cache'' # ''show'' # sort (keys_opt_map dpkgs)) err), w')
                 | (None, w') \<Rightarrow> (None, w')))) \<and>
      (len_opt_map dpkgs \<noteq> 0 \<longrightarrow>
         debian_GenerateHash InstalledD Command Unmarshal Parse Compare hw opts w =
         debian_GenerateHash InstalledD Command Unmarshal Parse Compare hw
           (opts\<lparr>FilterByName := keys_opt_map dpkgs\<rparr>) w) \<and>
      set (keys_opt_map dpkgs) = (case dpkgs of None \<Rightarrow> {} | Some kvs \<Rightarrow> dom (map_of kvs))) \<and>
   (FilterByName aopts = [] \<and> InstalledA = (apks, None) \<longrightarrow>
      alpine_GenerateHash InstalledA MkdirTemp Output generateHashWithURLReader ahw aopts aw =
        (case HashOptsCache aopts of
           None \<Rightarrow> (Some ErrCacheRequired, aw)
         | Some c \<Rightarrow>
             if len_opt_map apks = 0 then (Some ErrNoPackageInstalled, aw)
             else
               (case MkdirTemp of
                  Inl err \<Rightarrow> (Some err, aw)
                | Inr dummyDir \<Rightarrow>
                    (case Output ([''fetch'', ''--simulate'', ''--output='' @ dummyDir, ''--url'']
                                  @ sort (keys_opt_map apks)) of
                       Inl err \<Rightarrow>
                         (Some (ErrExecute
                                  (''apk'' #
                                   [''fetch'', ''--simulate'', ''--output='' @ dummyDir, ''--url'']
                                   @ sort (keys_opt_map apks)) err), aw)
                     | Inr urls \<Rightarrow> generateHashWithURLReader ahw c urls aw))) \<and>
      (HashOptsCache aopts \<noteq> None \<and> len_opt_map apks \<noteq> 0 \<longrightarrow>
         alpine_GenerateHash InstalledA MkdirTemp Output generateHashWithURLReader ahw aopts aw =
         alpine_GenerateHash InstalledA MkdirTemp Output generateHashWithURLReader ahw
           (aopts\<lparr>FilterByName := keys_opt_map apks\<rparr>) aw) \<and>
      set (keys_opt_map apks) = (case apks of None \<Rightarrow> {} | Some kvs \<Rightarrow> dom (map_of kvs)))"
  by (auto simp: debian_GenerateHash_def alpine_GenerateHash_def len_opt_map_0 keys_opt_map_set
      Let_def split: option.splits sum.splits)

theorem GenerateHash_defaults_to_installed_witness:
  "debian_GenerateHash (Some [], None) Started example_Unmarshal example_Parse example_Compare
     hw_record \<lparr>FilterByName = [], HashOptsCache = None :: unit option\<rparr> []
   = (Some ErrNoPackageInstalled, []) \<and>
   debian_GenerateHash example_installed Started example_Unmarshal example_Parse example_Compare
     hw_record \<lparr>FilterByName = [], HashOptsCache = None :: unit option\<rparr> []
   = (None, [(''sha-of-a-1.0'', ''pool/a_1.0_amd64.deb'')]) \<and>
   debian_GenerateHash example_installed Started example_Unmarshal example_Parse example_Compare
     hw_record \<lparr>FilterByName = [], HashOptsCache = None :: unit option\<rparr> []
   = debian_GenerateHash example_installed Started example_Unmarshal example_Parse example_Compare
     hw_record \<lparr>FilterByName = [''a''], HashOptsCache = None :: unit option\<rparr> [] \<and>
   alpine_GenerateHash
     (Some [(''zlib'', \<lparr>APKPackage = ''zlib'', APKVersion = ''1.3-r0''\<rparr>),
            (''musl'', \<lparr>APKPackage = ''musl'', APKVersion = ''1.2.3-r4''\<rparr>)], None)
     (Inr ''/tmp/dummy'') Inr (\<lambda>hw c urls w. hw ''digest'' (last urls) w)
     hw_record \<lparr>FilterByName = [], HashOptsCache = None :: unit option\<rparr> []
   = (Some ErrCacheRequired, []) \<and>
   alpine_GenerateHash (Some [], None) (Inr ''/tmp/dummy'') Inr
     (\<lambda>hw c urls w. hw ''digest'' (last urls) w)
     hw_record \<lparr>FilterByName = [], HashOptsCache = Some ()\<rparr> []
   = (Some ErrNoPackageInstalled, []) \<and>
   alpine_GenerateHash
     (Some [(''zlib'', \<lparr>APKPackage = ''zlib'', APKVersion = ''1.3-r0''\<rparr>),
            (''musl'', \<lparr>APKPackage = ''musl'', APKVersion = ''1.2.3-r4''\<rparr>)], None)
     (Inr ''/tmp/dummy'') (\<lambda>args. Inr (drop 4 args))
     (\<lambda>hw c urls w. hw ''digest'' (concat urls) w)
     hw_record \<lparr>FilterByName = [], HashOptsCache = Some ()\<rparr> []
   = (None, [(''digest'', ''muslzlib'')])"
proof -
  let ?dopts = "\<lparr>FilterByName = [], HashOptsCache = None :: unit option\<rparr>"
  let ?aopts = "\<lparr>FilterByName = [], HashOptsCache = Some ()\<rparr>"
  let ?apks = "Some [(''zlib'', \<lparr>APKPackage = ''zlib'', APKVersion = ''1.3-r0''\<rparr>),
            (''musl'', \<lparr>APKPackage = ''musl'', APKVersion = ''1.2.3-r4''\<rparr>)]"
  let ?last = "\<lambda>(hw :: (string \<times> string) list HashWriter) (c :: unit) (urls :: string list) w.
                   hw ''digest'' (last urls) w"
  let ?all = "\<lambda>(hw :: (string \<times> string) list HashWriter) (c :: unit) (urls :: string list) w.
                   hw ''digest'' (concat urls) w"
  have no_names: "FilterByName ?dopts = [] \<and>
      ((Some [], None) :: dpkgutil_Dpkg Installed) = (Some [], None)"
    by simp
  have no_names': "FilterByName ?dopts = [] \<and> example_installed = (fst example_installed, None)"
    by (simp add: example_installed_def)
  have no_names_a: "FilterByName ?aopts = [] \<and>
      ((Some [], None) :: apkutil_APK Installed) = (Some [], None)"
    by simp
  have no_names_a': "FilterByName ?aopts = [] \<and>
      ((?apks, None) :: apkutil_APK Installed) = (?apks, None)"
    by simp
  have no_names_a'': "FilterByName ?dopts = [] \<and>
      ((?apks, None) :: apkutil_APK Installed) = (?apks, None)"
    by simp
  have d_empty: "debian_GenerateHash (Some [], None) Started example_Unmarshal example_Parse
      example_Compare hw_record ?dopts [] = (Some ErrNoPackageInstalled, [])"
    using GenerateHash_defaults_to_installed
      [where opts = ?dopts and InstalledD = "(Some [], None)" and dpkgs = "Some []"
         and Command = Started and Unmarshal = example_Unmarshal and Parse = example_Parse
         and Compare = example_Compare and hw = hw_record and w = "[]",
       THEN conjunct1, rule_format, OF no_names, THEN conjunct1]
    by (simp add: len_opt_map_def len_map_def keys_of_def)
  note d_inst = GenerateHash_defaults_to_installed
      [where opts = ?dopts and InstalledD = example_installed and dpkgs = "fst example_installed"
         and Command = Started and Unmarshal = example_Unmarshal and Parse = example_Parse
         and Compare = example_Compare and hw = hw_record and w = "[]",
       THEN conjunct1, rule_format, OF no_names']
  have d_result: "debian_GenerateHash example_installed Started example_Unmarshal example_Parse
      example_Compare hw_record ?dopts []
    = (None, [(''sha-of-a-1.0'', ''pool/a_1.0_amd64.deb'')])"
    using d_inst [THEN conjunct1]
    by (simp add: len_opt_map_def len_map_def keys_opt_map_def keys_of_def example_installed_def
        generateHash_def passed_over_def index_str_def hw_record_def example_Unmarshal_def
        example_paragraph_def Let_def)
  have d_default: "debian_GenerateHash example_installed Started example_Unmarshal example_Parse
      example_Compare hw_record ?dopts []
    = debian_GenerateHash example_installed Started example_Unmarshal example_Parse
      example_Compare hw_record \<lparr>FilterByName = [''a''], HashOptsCache = None :: unit option\<rparr> []"
    using d_inst [THEN conjunct2, THEN conjunct1]
    by (simp add: len_opt_map_def len_map_def keys_opt_map_def keys_of_def example_installed_def)
  have a_nocache: "alpine_GenerateHash (?apks, None) (Inr ''/tmp/dummy'') Inr ?last
      hw_record ?dopts [] = (Some ErrCacheRequired, [])"
    using GenerateHash_defaults_to_installed
      [where aopts = ?dopts and InstalledA = "(?apks, None)" and apks = ?apks
         and MkdirTemp = "Inr ''/tmp/dummy''" and Output = Inr
         and generateHashWithURLReader = ?last and ahw = hw_record and aw = "[]",
       THEN conjunct2, rule_format, OF no_names_a'', THEN conjunct1]
    by simp
  have a_empty: "alpine_GenerateHash (Some [], None) (Inr ''/tmp/dummy'') Inr ?last
      hw_record ?aopts [] = (Some ErrNoPackageInstalled, [])"
    using GenerateHash_defaults_to_installed
      [where aopts = ?aopts and InstalledA = "(Some [], None)" and apks = "Some []"
         and MkdirTemp = "Inr ''/tmp/dummy''" and Output = Inr
         and generateHashWithURLReader = ?last and ahw = hw_record and aw = "[]",
       THEN conjunct2, rule_format, OF no_names_a, THEN conjunct1]
    by (simp add: len_opt_map_def len_map_def keys_of_def)
  have a_result: "alpine_GenerateHash (?apks, None) (Inr ''/tmp/dummy'')
      (\<lambda>args. Inr (drop 4 args)) ?all hw_record ?aopts []
    = (None, [(''digest'', ''muslzlib'')])"
    using GenerateHash_defaults_to_installed
      [where aopts = ?aopts and InstalledA = "(?apks, None)" and apks = ?apks
         and MkdirTemp = "Inr ''/tmp/dummy''" and Output = "\<lambda>args. Inr (drop 4 args)"
         and generateHashWithURLReader = ?all and ahw = hw_record and aw = "[]",
       THEN conjunct2, rule_format, OF no_names_a', THEN conjunct1]
    by (simp add: len_opt_map_def len_map_def keys_opt_map_def keys_of_def hw_record_def)
  show ?thesis
    by (intro conjI; (fact d_empty | fact d_result | fact d_default | fact a_nocache
          | fact a_empty | fact a_result))
qed

end
